theory Spec2Isabelle
  imports Complex_Main
begin

section \<open>Data model\<close>

text \<open>
  The enums of the store client, with the members that the front-end types and the
  design document of the repository list. (The dashboard query of the service names two
  further statuses, \<open>UNDER_REVIEW\<close> and \<open>COMPLETED\<close>; nothing modelled here
  reads or writes them.)
\<close>

datatype PackageStatus = DRAFT | IN_REVIEW | SUBMITTED | APPROVED | REJECTED | CLOSED

datatype PermitType = RESIDENTIAL | MOBILE_HOME | MODULAR_HOME

text \<open>
  A rejected promise of the service: the \<open>NotFoundException\<close> the service throws itself,
  or whatever the store call threw (time-out, constraint violation, missing record).
\<close>

datatype error = NotFoundException string | StoreFailure

text \<open>Rows of the tables the package workflow touches. Identifiers are the store's strings.\<close>

record PermitPackage =
  pkg_id :: string
  pkg_packageNumber :: string
  pkg_permitType :: PermitType
  pkg_customerId :: string
  pkg_countyId :: string
  pkg_status :: PackageStatus
  pkg_createdById :: string
  pkg_updatedById :: "string option"

record StatusLog =
  log_packageId :: string
  log_userId :: string
  log_status :: PackageStatus
  log_note :: "string option"

record PackageChecklistItem =
  item_id :: string
  item_packageId :: string
  item_label :: string
  item_category :: string
  item_required :: bool
  item_sort :: int
  item_completed :: bool
  item_completedAt :: "nat option"
  item_notes :: "string option"

record CountyChecklistTemplateItem =
  tpl_id :: string
  tpl_countyId :: string
  tpl_label :: string
  tpl_category :: string
  tpl_permitType :: "PermitType option"
  tpl_required :: bool
  tpl_sort :: int

text \<open>
  The persistent store. Every table is the list of its rows in insertion order, so the
  row created last is the last element (\<open>createdAt\<close> defaults to the insertion time).
\<close>

record Store =
  permitPackages :: "PermitPackage list"
  statusLogs :: "StatusLog list"
  packageChecklistItems :: "PackageChecklistItem list"
  countyChecklistTemplateItems :: "CountyChecklistTemplateItem list"

section \<open>Store calls\<close>

text \<open>
  Each store call is awaited by the service and may reject. The flag \<open>ok\<close> is the
  environment's verdict on that one call (\<open>False\<close>: the call throws and writes nothing).
  A call returns the store after it and either the error or its value.
\<close>

definition permitPackage_findUnique :: "Store \<Rightarrow> string \<Rightarrow> PermitPackage option" where
  "permitPackage_findUnique s i = find (\<lambda>p. pkg_id p = i) (permitPackages s)"

definition permitPackage_update ::
  "bool \<Rightarrow> Store \<Rightarrow> string \<Rightarrow> (PermitPackage \<Rightarrow> PermitPackage) \<Rightarrow> Store \<times> (error + PermitPackage)" where
  "permitPackage_update ok s i f =
     (if \<not> ok then (s, Inl StoreFailure)
      else case permitPackage_findUnique s i of
        None \<Rightarrow> (s, Inl StoreFailure)
      | Some p \<Rightarrow>
          (s\<lparr>permitPackages := map (\<lambda>q. if pkg_id q = i then f q else q) (permitPackages s)\<rparr>,
           Inr (f p)))"

definition permitPackage_create ::
  "bool \<Rightarrow> Store \<Rightarrow> PermitPackage \<Rightarrow> Store \<times> (error + PermitPackage)" where
  "permitPackage_create ok s p =
     (if \<not> ok \<or> permitPackage_findUnique s (pkg_id p) \<noteq> None then (s, Inl StoreFailure)
      else (s\<lparr>permitPackages := permitPackages s @ [p]\<rparr>, Inr p))"

definition statusLog_create ::
  "bool \<Rightarrow> Store \<Rightarrow> StatusLog \<Rightarrow> Store \<times> (error + StatusLog)" where
  "statusLog_create ok s l =
     (if \<not> ok \<or> permitPackage_findUnique s (log_packageId l) = None then (s, Inl StoreFailure)
      else (s\<lparr>statusLogs := statusLogs s @ [l]\<rparr>, Inr l))"

section \<open>PackagesService.updateStatus\<close>

text \<open>
  The service looks the package up, throws \<open>NotFoundException\<close> when it is missing, and
  otherwise issues the package update and the log insert together under \<open>Promise.all\<close>:
  both calls are started, each takes effect or fails on its own, and the result rejects
  when either rejected. The two calls write different tables, so their order is immaterial.
\<close>

definition updateStatus ::
  "bool \<Rightarrow> bool \<Rightarrow> Store \<Rightarrow> string \<Rightarrow> PackageStatus \<Rightarrow> string \<Rightarrow> string option
     \<Rightarrow> Store \<times> (error + PermitPackage \<times> StatusLog)" where
  "updateStatus okUpdate okLog s i st userId note =
     (case permitPackage_findUnique s i of
        None \<Rightarrow> (s, Inl (NotFoundException ''Permit package not found''))
      | Some packageData \<Rightarrow>
          (let (s1, r1) = permitPackage_update okUpdate s i
                            (\<lambda>p. p\<lparr>pkg_status := st, pkg_updatedById := Some userId\<rparr>);
               (s2, r2) = statusLog_create okLog s1
                            \<lparr>log_packageId = i, log_userId = userId, log_status = st, log_note = note\<rparr>
           in (s2, case r1 of
                     Inl e \<Rightarrow> Inl e
                   | Inr updatedPackage \<Rightarrow>
                       (case r2 of Inl e \<Rightarrow> Inl e
                        | Inr statusLog \<Rightarrow> Inr (updatedPackage, statusLog)))))"

section \<open>PackagesService.create and generatePackageNumber\<close>

text \<open>
  \<open>Number.prototype.toString\<close> on a non-negative integer (decimal digits, most
  significant first), \<open>String.prototype.padStart\<close> with a one-character filler, and
  the store's \<open>startsWith\<close> filter.
\<close>

definition digit_char :: "nat \<Rightarrow> char" where
  "digit_char d = char_of (48 + d)"

fun toString :: "nat \<Rightarrow> string" where
  "toString n = (if n < 10 then [digit_char n] else toString (n div 10) @ [digit_char (n mod 10)])"

declare toString.simps [simp del]

definition padStart :: "nat \<Rightarrow> char \<Rightarrow> string \<Rightarrow> string" where
  "padStart targetLength c str = replicate (targetLength - length str) c @ str"

definition startsWith :: "string \<Rightarrow> string \<Rightarrow> bool" where
  "startsWith str p = (take (length p) str = p)"

definition permitPackage_count :: "bool \<Rightarrow> Store \<Rightarrow> (PermitPackage \<Rightarrow> bool) \<Rightarrow> error + nat" where
  "permitPackage_count ok s P =
     (if ok then Inr (length (filter P (permitPackages s))) else Inl StoreFailure)"

text \<open>The prefix \<open>PKG-${year}-\<close> of the package numbers of one year.\<close>

definition yearPrefix :: "nat \<Rightarrow> string" where
  "yearPrefix year = ''PKG-'' @ toString year @ ''-''"

definition generatePackageNumber :: "bool \<Rightarrow> nat \<Rightarrow> Store \<Rightarrow> error + string" where
  "generatePackageNumber okCount year s =
     (case permitPackage_count okCount s (\<lambda>p. startsWith (pkg_packageNumber p) (yearPrefix year)) of
        Inl e \<Rightarrow> Inl e
      | Inr count \<Rightarrow> Inr (yearPrefix year @ padStart 4 (CHR ''0'') (toString (count + 1))))"

text \<open>
  The fields of \<open>CreatePackageDto\<close> that the workflow reads (the address, the mobile-home
  details, the description and the due date are copied into the row and play no part here).
\<close>

record CreatePackageDto =
  dto_permitType :: PermitType
  dto_customerId :: string
  dto_countyId :: string

text \<open>
  \<open>create\<close> draws the package number, inserts the package row (the status column
  defaults to \<open>DRAFT\<close>, \<open>newId\<close> is the identifier the store generates), inserts the
  initial status log, and returns the inserted row with the checklist items the store
  holds for it at the time of the insert (\<open>include: { checklistItems: true }\<close>).
\<close>

definition create ::
  "bool \<Rightarrow> bool \<Rightarrow> bool \<Rightarrow> nat \<Rightarrow> string \<Rightarrow> Store \<Rightarrow> CreatePackageDto \<Rightarrow> string
     \<Rightarrow> Store \<times> (error + PermitPackage \<times> PackageChecklistItem list)" where
  "create okCount okCreate okLog year newId s createPackageDto userId =
     (case generatePackageNumber okCount year s of
        Inl e \<Rightarrow> (s, Inl e)
      | Inr packageNumber \<Rightarrow>
          (case permitPackage_create okCreate s
                  \<lparr>pkg_id = newId, pkg_packageNumber = packageNumber,
                   pkg_permitType = dto_permitType createPackageDto,
                   pkg_customerId = dto_customerId createPackageDto,
                   pkg_countyId = dto_countyId createPackageDto,
                   pkg_status = DRAFT, pkg_createdById = userId, pkg_updatedById = None\<rparr> of
             (s1, Inl e) \<Rightarrow> (s1, Inl e)
           | (s1, Inr packageData) \<Rightarrow>
               (case statusLog_create okLog s1
                       \<lparr>log_packageId = pkg_id packageData, log_userId = userId,
                        log_status = DRAFT, log_note = Some ''Package created''\<rparr> of
                  (s2, Inl e) \<Rightarrow> (s2, Inl e)
                | (s2, Inr statusLog) \<Rightarrow>
                    (s2, Inr (packageData,
                              filter (\<lambda>c. item_packageId c = pkg_id packageData)
                                (packageChecklistItems s1))))))"

section \<open>PackagesService.updateChecklistItem and createChecklistItems\<close>

definition packageChecklistItem_findUnique :: "Store \<Rightarrow> string \<Rightarrow> PackageChecklistItem option" where
  "packageChecklistItem_findUnique s i = find (\<lambda>c. item_id c = i) (packageChecklistItems s)"

definition packageChecklistItem_update ::
  "bool \<Rightarrow> Store \<Rightarrow> string \<Rightarrow> (PackageChecklistItem \<Rightarrow> PackageChecklistItem)
     \<Rightarrow> Store \<times> (error + PackageChecklistItem)" where
  "packageChecklistItem_update ok s i f =
     (if ok then
        (case packageChecklistItem_findUnique s i of
           None \<Rightarrow> (s, Inl StoreFailure)
         | Some c \<Rightarrow>
             (s\<lparr>packageChecklistItems :=
                   map (\<lambda>q. if item_id q = i then f q else q) (packageChecklistItems s)\<rparr>,
              Inr (f c)))
      else (s, Inl StoreFailure))"

definition packageChecklistItem_create ::
  "bool \<Rightarrow> Store \<Rightarrow> PackageChecklistItem \<Rightarrow> Store \<times> (error + PackageChecklistItem)" where
  "packageChecklistItem_create ok s c =
     (if ok then (s\<lparr>packageChecklistItems := packageChecklistItems s @ [c]\<rparr>, Inr c)
      else (s, Inl StoreFailure))"

text \<open>
  \<open>now\<close> is the value of \<open>new Date()\<close>. A \<open>notes\<close> argument left out is
  \<open>undefined\<close>, which the store's update skips: the column keeps its value.
\<close>

definition updateChecklistItem ::
  "bool \<Rightarrow> nat \<Rightarrow> Store \<Rightarrow> string \<Rightarrow> bool \<Rightarrow> string option
     \<Rightarrow> Store \<times> (error + PackageChecklistItem)" where
  "updateChecklistItem okUpdate now s itemId completed notes =
     (case packageChecklistItem_findUnique s itemId of
        None \<Rightarrow> (s, Inl (NotFoundException ''Checklist item not found''))
      | Some checklistItem \<Rightarrow>
          packageChecklistItem_update okUpdate s itemId
            (\<lambda>c. c\<lparr>item_completed := completed,
                    item_completedAt := (if completed then Some now else None),
                    item_notes := (case notes of None \<Rightarrow> item_notes c | Some n \<Rightarrow> Some n)\<rparr>))"

text \<open>
  \<open>Promise.all\<close> over already started calls: the value list when all fulfilled, the
  first rejection otherwise.
\<close>

fun promise_all :: "(error + 'a) list \<Rightarrow> error + 'a list" where
  "promise_all [] = Inr []"
| "promise_all (Inl e # rs) = Inl e"
| "promise_all (Inr x # rs) = (case promise_all rs of Inl e \<Rightarrow> Inl e | Inr xs \<Rightarrow> Inr (x # xs))"

text \<open>
  The row \<open>createChecklistItems\<close> inserts for one supplied template row: the four copied
  fields and the package id; \<open>completed\<close>, \<open>completedAt\<close> and \<open>notes\<close> take the
  column defaults.
\<close>

definition newChecklistItem :: "string \<Rightarrow> string \<Rightarrow> CountyChecklistTemplateItem \<Rightarrow> PackageChecklistItem" where
  "newChecklistItem newId packageId item =
     \<lparr>item_id = newId, item_packageId = packageId, item_label = tpl_label item,
      item_category = tpl_category item, item_required = tpl_required item,
      item_sort = tpl_sort item, item_completed = False, item_completedAt = None,
      item_notes = None\<rparr>"

text \<open>
  \<open>templateItems.map(item => create(...))\<close>: one insert per supplied row, the \<open>k\<close>-th
  with its own verdict \<open>ok k\<close> and generated identifier \<open>newId k\<close>. Every insert is
  started whatever the others do.
\<close>

fun createEach ::
  "(nat \<Rightarrow> bool) \<Rightarrow> (nat \<Rightarrow> string) \<Rightarrow> nat \<Rightarrow> Store \<Rightarrow> string \<Rightarrow> CountyChecklistTemplateItem list
     \<Rightarrow> Store \<times> (error + PackageChecklistItem) list" where
  "createEach ok newId k s packageId [] = (s, [])"
| "createEach ok newId k s packageId (item # rest) =
     (case packageChecklistItem_create (ok k) s (newChecklistItem (newId k) packageId item) of
        (s1, r) \<Rightarrow>
          (case createEach ok newId (Suc k) s1 packageId rest of
             (s2, rs) \<Rightarrow> (s2, r # rs)))"

definition createChecklistItems ::
  "(nat \<Rightarrow> bool) \<Rightarrow> (nat \<Rightarrow> string) \<Rightarrow> Store \<Rightarrow> string \<Rightarrow> CountyChecklistTemplateItem list
     \<Rightarrow> Store \<times> (error + PackageChecklistItem list)" where
  "createChecklistItems ok newId s packageId templateItems =
     (case permitPackage_findUnique s packageId of
        None \<Rightarrow> (s, Inl (NotFoundException ''Permit package not found''))
      | Some packageData \<Rightarrow>
          (case createEach ok newId 0 s packageId templateItems of
             (s', rs) \<Rightarrow> (s', promise_all rs)))"

section \<open>PermitWebSocketGateway\<close>

text \<open>
  An authenticated socket carries its connection id and the user id the connection
  handler bound to it. The hub's room table maps a room name to the ids of the sockets
  that joined it.
\<close>

record AuthenticatedSocket =
  sock_id :: string
  sock_userId :: string

datatype event =
    Error string
  | JoinedPackage string
  | LeftPackage string
  | Presence string string nat
  | ChecklistUpdated string bool string nat
  | StatusUpdated string string "string option" string nat

text \<open>
  Where an emit goes: \<open>client.emit\<close> reaches the one socket, \<open>server.to(room).emit\<close>
  every member of the room, \<open>client.to(room).emit\<close> every member but the sender.
\<close>

datatype target = ToClient string | ToRoom string | ToRoomExcept string string

fun recipients :: "(string \<Rightarrow> string set) \<Rightarrow> target \<Rightarrow> string set" where
  "recipients rooms (ToClient c) = {c}"
| "recipients rooms (ToRoom r) = rooms r"
| "recipients rooms (ToRoomExcept r c) = rooms r - {c}"

definition roomOf :: "string \<Rightarrow> string" where
  "roomOf packageId = ''package-'' @ packageId"

definition permitPackage_findFirst ::
  "bool \<Rightarrow> Store \<Rightarrow> (PermitPackage \<Rightarrow> bool) \<Rightarrow> error + PermitPackage option" where
  "permitPackage_findFirst ok s P = (if ok then Inr (find P (permitPackages s)) else Inl StoreFailure)"

text \<open>The \<open>where\<close> clause of the join handler: the package, created or last updated by the user.\<close>

definition mayJoin :: "string \<Rightarrow> string \<Rightarrow> PermitPackage \<Rightarrow> bool" where
  "mayJoin packageId userId p \<longleftrightarrow>
     pkg_id p = packageId \<and> (pkg_createdById p = userId \<or> pkg_updatedById p = Some userId)"

text \<open>Each handler returns the state it leaves and the emits it made, in order.\<close>

definition handleJoinPackage ::
  "bool \<Rightarrow> nat \<Rightarrow> Store \<Rightarrow> (string \<Rightarrow> string set) \<Rightarrow> string \<Rightarrow> AuthenticatedSocket
     \<Rightarrow> (string \<Rightarrow> string set) \<times> (target \<times> event) list" where
  "handleJoinPackage okFind now s rooms packageId client =
     (case permitPackage_findFirst okFind s (mayJoin packageId (sock_userId client)) of
        Inl e \<Rightarrow> (rooms, [(ToClient (sock_id client), Error ''Failed to join package'')])
      | Inr None \<Rightarrow> (rooms, [(ToClient (sock_id client), Error ''Access denied to this package'')])
      | Inr (Some packageExists) \<Rightarrow>
          (rooms(roomOf packageId := insert (sock_id client) (rooms (roomOf packageId))),
           [(ToClient (sock_id client), JoinedPackage packageId),
            (ToRoomExcept (roomOf packageId) (sock_id client),
             Presence (sock_userId client) ''joined'' now)]))"

definition handleToggleChecklistItem ::
  "bool \<Rightarrow> nat \<Rightarrow> Store \<Rightarrow> string \<Rightarrow> string \<Rightarrow> bool \<Rightarrow> AuthenticatedSocket
     \<Rightarrow> Store \<times> (target \<times> event) list" where
  "handleToggleChecklistItem okUpdate now s packageId itemId completed client =
     (case packageChecklistItem_update okUpdate s itemId
             (\<lambda>c. c\<lparr>item_completed := completed,
                     item_completedAt := (if completed then Some now else None)\<rparr>) of
        (s1, Inl e) \<Rightarrow> (s1, [(ToClient (sock_id client), Error ''Failed to update checklist item'')])
      | (s1, Inr updatedItem) \<Rightarrow>
          (s1, [(ToRoom (roomOf packageId),
                 ChecklistUpdated itemId completed (sock_userId client) now)]))"

text \<open>
  The status of an \<open>update-status\<close> message is an unchecked string cast into the store
  call; the store rejects a string that is no member of the enum.
\<close>

fun statusOfString :: "string \<Rightarrow> PackageStatus option" where
  "statusOfString str =
     (if str = ''DRAFT'' then Some DRAFT
      else if str = ''IN_REVIEW'' then Some IN_REVIEW
      else if str = ''SUBMITTED'' then Some SUBMITTED
      else if str = ''APPROVED'' then Some APPROVED
      else if str = ''REJECTED'' then Some REJECTED
      else if str = ''CLOSED'' then Some CLOSED
      else None)"

definition handleUpdateStatus ::
  "bool \<Rightarrow> bool \<Rightarrow> nat \<Rightarrow> Store \<Rightarrow> string \<Rightarrow> string \<Rightarrow> string option \<Rightarrow> AuthenticatedSocket
     \<Rightarrow> Store \<times> (target \<times> event) list" where
  "handleUpdateStatus okUpdate okLog now s packageId status note client =
     (case statusOfString status of
        None \<Rightarrow> (s, [(ToClient (sock_id client), Error ''Failed to update status'')])
      | Some st \<Rightarrow>
          (case permitPackage_update okUpdate s packageId
                  (\<lambda>p. p\<lparr>pkg_status := st, pkg_updatedById := Some (sock_userId client)\<rparr>) of
             (s1, Inl e) \<Rightarrow> (s1, [(ToClient (sock_id client), Error ''Failed to update status'')])
           | (s1, Inr updatedPackage) \<Rightarrow>
               (case statusLog_create okLog s1
                       \<lparr>log_packageId = packageId, log_userId = sock_userId client,
                        log_status = st, log_note = note\<rparr> of
                  (s2, Inl e) \<Rightarrow> (s2, [(ToClient (sock_id client), Error ''Failed to update status'')])
                | (s2, Inr statusLog) \<Rightarrow>
                    (s2, [(ToRoom (roomOf packageId),
                           StatusUpdated packageId status note (sock_userId client) now)]))))"

section \<open>ChecklistEditor.getProgressStats\<close>

text \<open>
  The percentages are computed with JavaScript numbers, which are IEEE 754 doubles: the
  quotient \<open>completed / total\<close> and the product with \<open>100\<close> are each the exact
  result rounded to the nearest number with a 53-bit significand, ties going to the even
  significand. A positive double is written here as a pair \<open>(m, k)\<close> standing for
  \<open>m / 2 ^ k\<close>; zero is \<open>(0, 0)\<close>.
\<close>

fun bitLength :: "nat \<Rightarrow> nat" where
  "bitLength n = (if n = 0 then 0 else Suc (bitLength (n div 2)))"

declare bitLength.simps [simp del]

text \<open>The integer nearest to \<open>a / b\<close>, the even one of the two when \<open>a / b\<close> is halfway.\<close>

definition nearestEven :: "nat \<Rightarrow> nat \<Rightarrow> nat" where
  "nearestEven a b =
     (let n = a div b; r = a mod b
      in if 2 * r < b then n else if b < 2 * r then n + 1 else if even n then n else n + 1)"

text \<open>
  The scale \<open>k\<close> at which \<open>a / b\<close> has a 53-bit integer part:
  \<open>2 ^ 52 \<le> a * 2 ^ k / b < 2 ^ 53\<close>. The bit lengths give it up to one.
\<close>

definition scaleOf :: "nat \<Rightarrow> nat \<Rightarrow> nat" where
  "scaleOf a b =
     (let k = 52 + bitLength b - bitLength a
      in if b * 2 ^ 52 \<le> a * 2 ^ k then k else k + 1)"

text \<open>
  The double nearest to \<open>a / b\<close>, for a quotient below \<open>2 ^ 52\<close> (the quotients and
  products of \<open>getProgressStats\<close> are at most a little over 100).
\<close>

definition roundQuotient :: "nat \<Rightarrow> nat \<Rightarrow> nat \<times> nat" where
  "roundQuotient a b =
     (if a = 0 then (0, 0) else (nearestEven (a * 2 ^ scaleOf a b) b, scaleOf a b))"

text \<open>\<open>a / b\<close> on two counts, \<open>x * 100\<close> on a double, and \<open>Math.round\<close>, which is \<open>\<lfloor>x + 1/2\<rfloor>\<close>.\<close>

definition js_divide :: "nat \<Rightarrow> nat \<Rightarrow> nat \<times> nat" where
  "js_divide a b = roundQuotient a b"

definition js_times100 :: "nat \<times> nat \<Rightarrow> nat \<times> nat" where
  "js_times100 x = roundQuotient (fst x * 100) (2 ^ snd x)"

definition Math_round :: "nat \<times> nat \<Rightarrow> nat" where
  "Math_round x = (2 * fst x + 2 ^ snd x) div 2 ^ (snd x + 1)"

record ProgressStats =
  stats_total :: nat
  stats_completed :: nat
  stats_required :: nat
  stats_requiredCompleted :: nat
  stats_percentage :: nat
  stats_requiredPercentage :: nat

definition getProgressStats :: "PackageChecklistItem list \<Rightarrow> ProgressStats" where
  "getProgressStats items =
     (let total = length items;
          completed = length (filter item_completed items);
          required = length (filter item_required items);
          requiredCompleted = length (filter (\<lambda>item. item_required item \<and> item_completed item) items)
      in \<lparr>stats_total = total,
          stats_completed = completed,
          stats_required = required,
          stats_requiredCompleted = requiredCompleted,
          stats_percentage =
            (if total > 0 then Math_round (js_times100 (js_divide completed total)) else 0),
          stats_requiredPercentage =
            (if required > 0 then Math_round (js_times100 (js_divide requiredCompleted required))
             else 0)\<rparr>)"

text \<open>
  The percentage as the specification words it: \<open>round(100 * part / whole)\<close> in exact
  arithmetic when the whole is positive, and 0 otherwise.
\<close>

definition specPercentage :: "nat \<Rightarrow> nat \<Rightarrow> int" where
  "specPercentage part whole =
     (if whole > 0 then round (100 * real part / real whole) else 0)"

section \<open>Runs of calls and derived notions\<close>

text \<open>
  A toggle of a checklist item reaches the store through the service method (with its
  clock value, flag and notes) or through the \<open>toggle-checklist-item\<close> handler of the
  gateway (with its clock value, the package id of the message, the flag and the socket).
  A run of toggles on one item applies them in order, every store update going through.
\<close>

datatype toggleCall =
    ViaService nat bool "string option"
  | ViaGateway nat string bool AuthenticatedSocket

fun toggleAll :: "Store \<Rightarrow> string \<Rightarrow> toggleCall list \<Rightarrow> Store" where
  "toggleAll s itemId [] = s"
| "toggleAll s itemId (ViaService now completed notes # rest) =
     toggleAll (fst (updateChecklistItem True now s itemId completed notes)) itemId rest"
| "toggleAll s itemId (ViaGateway now packageId completed client # rest) =
     toggleAll (fst (handleToggleChecklistItem True now s packageId itemId completed client))
       itemId rest"

text \<open>The audit trail of a package: its status log rows, oldest first.\<close>

definition logsOf :: "Store \<Rightarrow> string \<Rightarrow> StatusLog list" where
  "logsOf s packageId = filter (\<lambda>l. log_packageId l = packageId) (statusLogs s)"

text \<open>
  A run of \<open>updateStatus\<close> calls, each with the verdicts of its two store writes, its
  package id, status, user and note. The run is \<open>None\<close> when one of the calls fails.
\<close>

fun updateStatusAll ::
  "Store \<Rightarrow> (bool \<times> bool \<times> string \<times> PackageStatus \<times> string \<times> string option) list \<Rightarrow> Store option" where
  "updateStatusAll s [] = Some s"
| "updateStatusAll s ((okUpdate, okLog, i, st, userId, note) # rest) =
     (case updateStatus okUpdate okLog s i st userId note of
        (s', Inl e) \<Rightarrow> None
      | (s', Inr r) \<Rightarrow> updateStatusAll s' rest)"

text \<open>
  A run of \<open>create\<close> calls within one year, one after the other: each with the verdicts
  of its three store calls, the generated id, the request and the user. The run is
  \<open>None\<close> when a call fails, and otherwise yields the package numbers assigned, in order.
\<close>

fun createAll ::
  "nat \<Rightarrow> Store \<Rightarrow> (bool \<times> bool \<times> bool \<times> string \<times> CreatePackageDto \<times> string) list
     \<Rightarrow> (Store \<times> string list) option" where
  "createAll year s [] = Some (s, [])"
| "createAll year s ((okCount, okCreate, okLog, newId, dto, userId) # rest) =
     (case create okCount okCreate okLog year newId s dto userId of
        (s1, Inl e) \<Rightarrow> None
      | (s1, Inr (pkg, items)) \<Rightarrow>
          (case createAll year s1 rest of
             None \<Rightarrow> None
           | Some (s2, numbers) \<Rightarrow> Some (s2, pkg_packageNumber pkg # numbers)))"

text \<open>The number of stored packages whose number starts with the prefix of the year.\<close>

definition countOfYear :: "nat \<Rightarrow> Store \<Rightarrow> nat" where
  "countOfYear year s =
     length (filter (\<lambda>p. startsWith (pkg_packageNumber p) (yearPrefix year)) (permitPackages s))"

text \<open>The number a string of decimal digits stands for.\<close>

definition fromDigits :: "string \<Rightarrow> nat" where
  "fromDigits str = foldl (\<lambda>acc c. acc * 10 + (of_char c - 48)) 0 str"

text \<open>
  Whether \<open>100 * part / whole\<close> lies exactly halfway between two integers, that is,
  whether \<open>100 * part / whole + 1/2\<close> is an integer.
\<close>

definition halfway :: "nat \<Rightarrow> nat \<Rightarrow> bool" where
  "halfway part whole \<longleftrightarrow> 0 < whole \<and> (200 * part + whole) mod (2 * whole) = 0"

text \<open>The real number a double \<open>(m, k)\<close> stands for.\<close>

definition doubleValue :: "nat \<times> nat \<Rightarrow> real" where
  "doubleValue x = real (fst x) / 2 ^ snd x"

section \<open>Example data\<close>

text \<open>A store with one approved package and its creation entry.\<close>

definition pkg1 :: PermitPackage where
  "pkg1 = \<lparr>pkg_id = ''pkg-1'', pkg_packageNumber = ''PKG-2024-0001'',
            pkg_permitType = MOBILE_HOME, pkg_customerId = ''cust-1'',
            pkg_countyId = ''miami-dade'', pkg_status = APPROVED,
            pkg_createdById = ''user-1'', pkg_updatedById = None\<rparr>"

definition store1 :: Store where
  "store1 = \<lparr>permitPackages = [pkg1],
              statusLogs = [\<lparr>log_packageId = ''pkg-1'', log_userId = ''user-1'',
                              log_status = DRAFT, log_note = Some ''Package created''\<rparr>],
              packageChecklistItems = [],
              countyChecklistTemplateItems = []\<rparr>"

definition item1 :: PackageChecklistItem where
  "item1 = \<lparr>item_id = ''item-1'', item_packageId = ''pkg-1'', item_label = ''Site plan'',
             item_category = ''Plans'', item_required = True, item_sort = 1,
             item_completed = False, item_completedAt = None, item_notes = Some ''draft''\<rparr>"

definition store2 :: Store where
  "store2 = store1\<lparr>packageChecklistItems := [item1]\<rparr>"

definition alice :: AuthenticatedSocket where
  "alice = \<lparr>sock_id = ''sock-a'', sock_userId = ''user-1''\<rparr>"

definition mallory :: AuthenticatedSocket where
  "mallory = \<lparr>sock_id = ''sock-m'', sock_userId = ''user-7''\<rparr>"

definition rooms1 :: "string \<Rightarrow> string set" where
  "rooms1 = (\<lambda>r. {})(''package-pkg-1'' := {''sock-a''})"

text \<open>
  A history of package pkg-1: the second user updates its status and so becomes its last
  updater, joins its room, and then the first user updates the status again.
\<close>

definition storeUpdatedByMallory :: Store where
  "storeUpdatedByMallory =
     fst (handleUpdateStatus True True 1700 store2 ''pkg-1'' ''IN_REVIEW'' None mallory)"

definition roomsWithMallory :: "string \<Rightarrow> string set" where
  "roomsWithMallory =
     fst (handleJoinPackage True 1701 storeUpdatedByMallory (\<lambda>r. {}) ''pkg-1'' mallory)"

definition storeUpdatedByAlice :: Store where
  "storeUpdatedByAlice =
     fst (handleUpdateStatus True True 1702 storeUpdatedByMallory ''pkg-1'' ''SUBMITTED'' None alice)"

text \<open>Two template rows of one county, one for every permit type and one residential.\<close>

definition tplGeneric :: CountyChecklistTemplateItem where
  "tplGeneric = \<lparr>tpl_id = ''tpl-1'', tpl_countyId = ''miami-dade'', tpl_label = ''Site plan'',
                  tpl_category = ''Plans'', tpl_permitType = None, tpl_required = True, tpl_sort = 1\<rparr>"

definition tplResidential :: CountyChecklistTemplateItem where
  "tplResidential = \<lparr>tpl_id = ''tpl-2'', tpl_countyId = ''miami-dade'', tpl_label = ''Energy form'',
                      tpl_category = ''Forms'', tpl_permitType = Some RESIDENTIAL,
                      tpl_required = False, tpl_sort = 2\<rparr>"

definition itemIds :: "nat \<Rightarrow> string" where
  "itemIds k = ''item-new-'' @ toString k"

text \<open>A creation request for the county of the templates, and a run of status updates.\<close>

definition dto1 :: CreatePackageDto where
  "dto1 = \<lparr>dto_permitType = MOBILE_HOME, dto_customerId = ''cust-1'', dto_countyId = ''miami-dade''\<rparr>"

definition store3 :: Store where
  "store3 = store2\<lparr>countyChecklistTemplateItems := [tplGeneric, tplResidential]\<rparr>"

definition pkg2 :: PermitPackage where
  "pkg2 = \<lparr>pkg_id = ''pkg-2'', pkg_packageNumber = ''PKG-2024-0002'',
            pkg_permitType = MOBILE_HOME, pkg_customerId = ''cust-1'',
            pkg_countyId = ''miami-dade'', pkg_status = DRAFT,
            pkg_createdById = ''user-1'', pkg_updatedById = None\<rparr>"

definition calls1 :: "(bool \<times> bool \<times> string \<times> PackageStatus \<times> string \<times> string option) list" where
  "calls1 = [(True, True, ''pkg-2'', IN_REVIEW, ''user-2'', Some ''sent to reviewer''),
             (True, True, ''pkg-1'', CLOSED, ''user-1'', None),
             (True, True, ''pkg-2'', DRAFT, ''user-2'', None)]"

text \<open>Two creation requests of the year 2024.\<close>

definition dto2 :: CreatePackageDto where
  "dto2 = \<lparr>dto_permitType = RESIDENTIAL, dto_customerId = ''cust-2'', dto_countyId = ''miami-dade''\<rparr>"

definition requests1 :: "(bool \<times> bool \<times> bool \<times> string \<times> CreatePackageDto \<times> string) list" where
  "requests1 = [(True, True, True, ''pkg-2'', dto1, ''user-1''),
                (True, True, True, ''pkg-3'', dto2, ''user-2'')]"

text \<open>Items for every combination of the two flags, and two checklists made of them.\<close>

definition itemRC :: PackageChecklistItem where
  "itemRC = item1\<lparr>item_id := ''item-rc'', item_required := True, item_completed := True,
                    item_completedAt := Some 1700\<rparr>"

definition itemC :: PackageChecklistItem where
  "itemC = item1\<lparr>item_id := ''item-c'', item_required := False, item_completed := True,
                   item_completedAt := Some 1700\<rparr>"

definition itemR :: PackageChecklistItem where
  "itemR = item1\<lparr>item_id := ''item-r'', item_required := True, item_completed := False\<rparr>"

definition itemO :: PackageChecklistItem where
  "itemO = item1\<lparr>item_id := ''item-o'', item_required := False, item_completed := False\<rparr>"

definition checklist10 :: "PackageChecklistItem list" where
  "checklist10 = replicate 3 itemRC @ [itemC] @ replicate 3 itemR @ replicate 3 itemO"

definition checklist40 :: "PackageChecklistItem list" where
  "checklist40 = replicate 23 itemC @ replicate 17 itemO"

section \<open>Basic facts about the store calls\<close>

lemma find_id_map_update:
  assumes "\<And>q. pkg_id (f q) = pkg_id q"
  shows "find (\<lambda>p. pkg_id p = j) (map (\<lambda>q. if pkg_id q = i then f q else q) ps)
           = map_option (\<lambda>q. if pkg_id q = i then f q else q) (find (\<lambda>p. pkg_id p = j) ps)"
  using assms by (induction ps) auto

lemma findUnique_statusLogs_update [simp]:
  "permitPackage_findUnique (s\<lparr>statusLogs := x\<rparr>) i = permitPackage_findUnique s i"
  by (simp add: permitPackage_findUnique_def)

lemma findUnique_checklist_update [simp]:
  "permitPackage_findUnique (s\<lparr>packageChecklistItems := x\<rparr>) i = permitPackage_findUnique s i"
  by (simp add: permitPackage_findUnique_def)

lemma findUnique_after_update:
  "permitPackage_findUnique
     (s\<lparr>permitPackages :=
          map (\<lambda>q. if pkg_id q = i then q\<lparr>pkg_status := st, pkg_updatedById := u\<rparr> else q)
            (permitPackages s)\<rparr>) j
   = map_option (\<lambda>q. if pkg_id q = i then q\<lparr>pkg_status := st, pkg_updatedById := u\<rparr> else q)
       (permitPackage_findUnique s j)"
  by (simp add: permitPackage_findUnique_def find_id_map_update)

lemma findUnique_Some_id:
  "permitPackage_findUnique s i = Some p \<Longrightarrow> pkg_id p = i"
  by (auto simp: permitPackage_findUnique_def find_Some_iff)

lemma updateStatus_None:
  "permitPackage_findUnique s i = None \<Longrightarrow>
   updateStatus okUpdate okLog s i st userId note
     = (s, Inl (NotFoundException ''Permit package not found''))"
  by (simp add: updateStatus_def)

lemma updateStatus_Some:
  assumes "permitPackage_findUnique s i = Some p"
  shows "updateStatus okUpdate okLog s i st userId note =
    (s\<lparr>permitPackages :=
         (if okUpdate
          then map (\<lambda>q. if pkg_id q = i then q\<lparr>pkg_status := st, pkg_updatedById := Some userId\<rparr> else q)
                 (permitPackages s)
          else permitPackages s),
       statusLogs :=
         (if okLog
          then statusLogs s @ [\<lparr>log_packageId = i, log_userId = userId, log_status = st, log_note = note\<rparr>]
          else statusLogs s)\<rparr>,
     if okUpdate \<and> okLog
     then Inr (p\<lparr>pkg_status := st, pkg_updatedById := Some userId\<rparr>,
               \<lparr>log_packageId = i, log_userId = userId, log_status = st, log_note = note\<rparr>)
     else Inl StoreFailure)"
  using assms
  by (cases okUpdate; cases okLog)
     (simp_all add: updateStatus_def permitPackage_update_def statusLog_create_def
        findUnique_after_update)

section \<open>Status updates: missing packages and unrestricted transitions\<close>

text \<open>
  Claim C4. When no package has the given id, \<open>updateStatus\<close> signals NotFound and
  leaves the store as it was. When the package exists, every member of the status enum is
  accepted as the next status whatever the current one: with both store writes going
  through the call succeeds and the package carries the requested status, and the call
  fails exactly when a store write fails, never because of the transition asked for.
\<close>

theorem updateStatus_notfound_or_any_status:
  "(permitPackage_findUnique s i = None \<longrightarrow>
      updateStatus okUpdate okLog s i st userId note
        = (s, Inl (NotFoundException ''Permit package not found'')))
   \<and> (permitPackage_findUnique s i \<noteq> None \<longrightarrow>
      (\<exists>s' p l. updateStatus True True s i st userId note = (s', Inr (p, l))
          \<and> pkg_status p = st \<and> log_status l = st
          \<and> permitPackage_findUnique s' i = Some p)
      \<and> (isl (snd (updateStatus okUpdate okLog s i st userId note)) \<longleftrightarrow> \<not> (okUpdate \<and> okLog)))"
proof (intro conjI impI)
  assume "permitPackage_findUnique s i = None"
  then show "updateStatus okUpdate okLog s i st userId note
        = (s, Inl (NotFoundException ''Permit package not found''))"
    by (rule updateStatus_None)
next
  assume "permitPackage_findUnique s i \<noteq> None"
  then obtain p where p: "permitPackage_findUnique s i = Some p" by blast
  have id: "pkg_id p = i" using findUnique_Some_id[OF p] .
  show "\<exists>s' p l. updateStatus True True s i st userId note = (s', Inr (p, l))
          \<and> pkg_status p = st \<and> log_status l = st
          \<and> permitPackage_findUnique s' i = Some p"
    by (simp add: updateStatus_Some[OF p] findUnique_after_update p id)
next
  assume "permitPackage_findUnique s i \<noteq> None"
  then obtain p where p: "permitPackage_findUnique s i = Some p" by blast
  show "isl (snd (updateStatus okUpdate okLog s i st userId note)) \<longleftrightarrow> \<not> (okUpdate \<and> okLog)"
    by (simp add: updateStatus_Some[OF p])
qed

theorem updateStatus_notfound_or_any_status_witness:
  "permitPackage_findUnique store1 ''pkg-9'' = None
   \<and> updateStatus True True store1 ''pkg-9'' DRAFT ''user-2'' None
        = (store1, Inl (NotFoundException ''Permit package not found''))
   \<and> permitPackage_findUnique store1 ''pkg-1'' \<noteq> None
   \<and> pkg_status pkg1 = APPROVED
   \<and> (\<exists>s' p l. updateStatus True True store1 ''pkg-1'' DRAFT ''user-2'' None = (s', Inr (p, l))
          \<and> pkg_status p = DRAFT \<and> log_status l = DRAFT
          \<and> permitPackage_findUnique s' ''pkg-1'' = Some p)"
proof -
  have a: "permitPackage_findUnique store1 ''pkg-9'' = None"
    by (simp add: permitPackage_findUnique_def store1_def pkg1_def)
  have b: "permitPackage_findUnique store1 ''pkg-1'' \<noteq> None"
    by (simp add: permitPackage_findUnique_def store1_def pkg1_def)
  have c: "pkg_status pkg1 = APPROVED" by (simp add: pkg1_def)
  from updateStatus_notfound_or_any_status[of store1 "''pkg-9''" True True DRAFT "''user-2''" None] a
  have d: "updateStatus True True store1 ''pkg-9'' DRAFT ''user-2'' None
        = (store1, Inl (NotFoundException ''Permit package not found''))" by blast
  from updateStatus_notfound_or_any_status[of store1 "''pkg-1''" True True DRAFT "''user-2''" None] b
  have e: "\<exists>s' p l. updateStatus True True store1 ''pkg-1'' DRAFT ''user-2'' None = (s', Inr (p, l))
          \<and> pkg_status p = DRAFT \<and> log_status l = DRAFT
          \<and> permitPackage_findUnique s' ''pkg-1'' = Some p" by blast
  show ?thesis using a b c d e by blast
qed

section \<open>Facts about the status handler of the gateway\<close>

lemma handleUpdateStatus_bad_status:
  "statusOfString status = None \<Longrightarrow>
   handleUpdateStatus okUpdate okLog now s packageId status note client
     = (s, [(ToClient (sock_id client), Error ''Failed to update status'')])"
  by (simp add: handleUpdateStatus_def del: statusOfString.simps)

lemma handleUpdateStatus_missing:
  "permitPackage_findUnique s packageId = None \<Longrightarrow>
   handleUpdateStatus okUpdate okLog now s packageId status note client
     = (s, [(ToClient (sock_id client), Error ''Failed to update status'')])"
  by (simp add: handleUpdateStatus_def permitPackage_update_def del: statusOfString.simps
           split: option.splits)

lemma handleUpdateStatus_Some:
  assumes "statusOfString status = Some st" and "permitPackage_findUnique s packageId = Some p"
  shows "handleUpdateStatus okUpdate okLog now s packageId status note client =
    (if okUpdate then
       if okLog then
         (s\<lparr>permitPackages :=
              map (\<lambda>q. if pkg_id q = packageId
                        then q\<lparr>pkg_status := st, pkg_updatedById := Some (sock_userId client)\<rparr> else q)
                (permitPackages s),
            statusLogs := statusLogs s @
              [\<lparr>log_packageId = packageId, log_userId = sock_userId client,
                log_status = st, log_note = note\<rparr>]\<rparr>,
          [(ToRoom (roomOf packageId),
            StatusUpdated packageId status note (sock_userId client) now)])
       else
         (s\<lparr>permitPackages :=
              map (\<lambda>q. if pkg_id q = packageId
                        then q\<lparr>pkg_status := st, pkg_updatedById := Some (sock_userId client)\<rparr> else q)
                (permitPackages s)\<rparr>,
          [(ToClient (sock_id client), Error ''Failed to update status'')])
     else (s, [(ToClient (sock_id client), Error ''Failed to update status'')]))"
  using assms
  by (cases okUpdate; cases okLog)
     (simp_all add: handleUpdateStatus_def permitPackage_update_def statusLog_create_def
        findUnique_after_update del: statusOfString.simps)

section \<open>Status updates: the two writes\<close>

text \<open>
  Claim C1, as the code has it. For an existing package, \<open>updateStatus\<close> issues the
  package update and the log insert independently. When both writes succeed the call
  succeeds, the package carries the new status and updater, and exactly one entry with the
  status, note and user is appended. Nothing is rolled back: a failed package update leaves
  the package table as it was, a failed log insert appends nothing, each whatever the other
  write did, and the call fails when either write failed.
\<close>

theorem updateStatus_writes_independent:
  assumes "permitPackage_findUnique s i = Some p"
  shows "(if okUpdate
          then permitPackage_findUnique (fst (updateStatus okUpdate okLog s i st userId note)) i
                 = Some (p\<lparr>pkg_status := st, pkg_updatedById := Some userId\<rparr>)
          else permitPackages (fst (updateStatus okUpdate okLog s i st userId note)) = permitPackages s)
       \<and> (if okLog
          then statusLogs (fst (updateStatus okUpdate okLog s i st userId note))
                 = statusLogs s @ [\<lparr>log_packageId = i, log_userId = userId, log_status = st, log_note = note\<rparr>]
          else statusLogs (fst (updateStatus okUpdate okLog s i st userId note)) = statusLogs s)
       \<and> snd (updateStatus okUpdate okLog s i st userId note)
           = (if okUpdate \<and> okLog
              then Inr (p\<lparr>pkg_status := st, pkg_updatedById := Some userId\<rparr>,
                        \<lparr>log_packageId = i, log_userId = userId, log_status = st, log_note = note\<rparr>)
              else Inl StoreFailure)"
proof -
  have id: "pkg_id p = i" using findUnique_Some_id[OF assms] .
  show ?thesis
    by (simp add: updateStatus_Some[OF assms] findUnique_after_update assms id)
qed

theorem updateStatus_writes_independent_witness:
  "permitPackage_findUnique store1 ''pkg-1'' = Some pkg1
   \<and> permitPackage_findUnique (fst (updateStatus True True store1 ''pkg-1'' IN_REVIEW ''user-2'' (Some ''sent to reviewer''))) ''pkg-1''
       = Some (pkg1\<lparr>pkg_status := IN_REVIEW, pkg_updatedById := Some ''user-2''\<rparr>)
   \<and> statusLogs (fst (updateStatus True True store1 ''pkg-1'' IN_REVIEW ''user-2'' (Some ''sent to reviewer'')))
       = statusLogs store1 @ [\<lparr>log_packageId = ''pkg-1'', log_userId = ''user-2'',
                               log_status = IN_REVIEW, log_note = Some ''sent to reviewer''\<rparr>]
   \<and> snd (updateStatus True True store1 ''pkg-1'' IN_REVIEW ''user-2'' (Some ''sent to reviewer''))
       = Inr (pkg1\<lparr>pkg_status := IN_REVIEW, pkg_updatedById := Some ''user-2''\<rparr>,
              \<lparr>log_packageId = ''pkg-1'', log_userId = ''user-2'',
               log_status = IN_REVIEW, log_note = Some ''sent to reviewer''\<rparr>)"
proof -
  have a: "permitPackage_findUnique store1 ''pkg-1'' = Some pkg1"
    by (simp add: permitPackage_findUnique_def store1_def pkg1_def)
  show ?thesis
    using a updateStatus_writes_independent[OF a, of True True IN_REVIEW "''user-2''" "Some ''sent to reviewer''"]
    by simp
qed

text \<open>
  The claim as stated (both writes or neither) fails: when the log insert fails, the
  approved package of the example store is left in review with no entry for the change.
\<close>

theorem updateStatus_partial_write_counterexample:
  "snd (updateStatus True False store1 ''pkg-1'' IN_REVIEW ''user-2'' (Some ''sent to reviewer''))
     = Inl StoreFailure
   \<and> map pkg_status (permitPackages
        (fst (updateStatus True False store1 ''pkg-1'' IN_REVIEW ''user-2'' (Some ''sent to reviewer''))))
       = [IN_REVIEW]
   \<and> map pkg_status (permitPackages store1) = [APPROVED]
   \<and> statusLogs (fst (updateStatus True False store1 ''pkg-1'' IN_REVIEW ''user-2'' (Some ''sent to reviewer'')))
       = statusLogs store1
   \<and> fst (updateStatus True False store1 ''pkg-1'' IN_REVIEW ''user-2'' (Some ''sent to reviewer''))
       \<noteq> store1"
proof -
  have a: "permitPackage_findUnique store1 ''pkg-1'' = Some pkg1"
    by (simp add: permitPackage_findUnique_def store1_def pkg1_def)
  show ?thesis
    by (simp add: updateStatus_Some[OF a]) (simp add: store1_def pkg1_def)
qed

section \<open>Facts about the checklist store calls\<close>

lemma find_item_map_update:
  assumes "\<And>q. item_id (f q) = item_id q"
  shows "find (\<lambda>c. item_id c = j) (map (\<lambda>q. if item_id q = i then f q else q) cs)
           = map_option (\<lambda>q. if item_id q = i then f q else q) (find (\<lambda>c. item_id c = j) cs)"
  using assms by (induction cs) auto

lemma item_findUnique_Some_id:
  "packageChecklistItem_findUnique s i = Some c \<Longrightarrow> item_id c = i"
  by (auto simp: packageChecklistItem_findUnique_def find_Some_iff)

lemma handleToggle_eq:
  "handleToggleChecklistItem okUpdate now s packageId itemId completed client =
     (case packageChecklistItem_findUnique s itemId of
        None \<Rightarrow> (s, [(ToClient (sock_id client), Error ''Failed to update checklist item'')])
      | Some c \<Rightarrow>
          if okUpdate then
            (s\<lparr>packageChecklistItems :=
                 map (\<lambda>q. if item_id q = itemId
                           then q\<lparr>item_completed := completed,
                                  item_completedAt := (if completed then Some now else None)\<rparr>
                           else q) (packageChecklistItems s)\<rparr>,
             [(ToRoom (roomOf packageId), ChecklistUpdated itemId completed (sock_userId client) now)])
          else (s, [(ToClient (sock_id client), Error ''Failed to update checklist item'')]))"
  by (simp add: handleToggleChecklistItem_def packageChecklistItem_update_def split: option.splits)

section \<open>Broadcast after persistence\<close>

text \<open>
  Claim C8. The toggle handler emits \<open>checklist-updated\<close> to the room exactly when its
  store update succeeded, and then the item is stored with the new flag; the status
  handler emits \<open>status-updated\<close> to the room exactly when the package update and the
  log insert both succeeded, and then both are in the store. In every other case the only
  emit is one \<open>error\<close> event to the originating socket, and nothing goes to the room.
\<close>

theorem broadcast_only_after_persist:
  "snd (handleToggleChecklistItem okUpdate now s packageId itemId completed client)
     = (if okUpdate \<and> packageChecklistItem_findUnique s itemId \<noteq> None
        then [(ToRoom (roomOf packageId), ChecklistUpdated itemId completed (sock_userId client) now)]
        else [(ToClient (sock_id client), Error ''Failed to update checklist item'')])
   \<and> (if okUpdate \<and> packageChecklistItem_findUnique s itemId \<noteq> None
      then map_option item_completed
             (packageChecklistItem_findUnique
                (fst (handleToggleChecklistItem okUpdate now s packageId itemId completed client)) itemId)
             = Some completed
      else fst (handleToggleChecklistItem okUpdate now s packageId itemId completed client) = s)
   \<and> snd (handleUpdateStatus okUpd okLog now s packageId status note client)
     = (if statusOfString status \<noteq> None \<and> permitPackage_findUnique s packageId \<noteq> None
           \<and> okUpd \<and> okLog
        then [(ToRoom (roomOf packageId), StatusUpdated packageId status note (sock_userId client) now)]
        else [(ToClient (sock_id client), Error ''Failed to update status'')])
   \<and> (if statusOfString status \<noteq> None \<and> permitPackage_findUnique s packageId \<noteq> None
           \<and> okUpd \<and> okLog
      then map_option pkg_status
             (permitPackage_findUnique
                (fst (handleUpdateStatus okUpd okLog now s packageId status note client)) packageId)
             = statusOfString status
           \<and> statusLogs (fst (handleUpdateStatus okUpd okLog now s packageId status note client))
             = statusLogs s @ [\<lparr>log_packageId = packageId, log_userId = sock_userId client,
                                 log_status = the (statusOfString status), log_note = note\<rparr>]
      else statusLogs (fst (handleUpdateStatus okUpd okLog now s packageId status note client))
             = statusLogs s)"
proof (intro conjI)
  show "snd (handleToggleChecklistItem okUpdate now s packageId itemId completed client)
     = (if okUpdate \<and> packageChecklistItem_findUnique s itemId \<noteq> None
        then [(ToRoom (roomOf packageId), ChecklistUpdated itemId completed (sock_userId client) now)]
        else [(ToClient (sock_id client), Error ''Failed to update checklist item'')])"
    by (simp add: handleToggle_eq split: option.splits)
next
  show "if okUpdate \<and> packageChecklistItem_findUnique s itemId \<noteq> None
      then map_option item_completed
             (packageChecklistItem_findUnique
                (fst (handleToggleChecklistItem okUpdate now s packageId itemId completed client)) itemId)
             = Some completed
      else fst (handleToggleChecklistItem okUpdate now s packageId itemId completed client) = s"
  proof (cases "packageChecklistItem_findUnique s itemId")
    case None
    then show ?thesis by (simp add: handleToggle_eq)
  next
    case (Some c)
    have "item_id c = itemId" using item_findUnique_Some_id[OF Some] .
    moreover have "find (\<lambda>c. item_id c = itemId) (packageChecklistItems s) = Some c"
      using Some by (simp add: packageChecklistItem_findUnique_def)
    ultimately show ?thesis
      using Some
      by (simp add: handleToggle_eq packageChecklistItem_findUnique_def find_item_map_update)
  qed
next
  show "snd (handleUpdateStatus okUpd okLog now s packageId status note client)
     = (if statusOfString status \<noteq> None \<and> permitPackage_findUnique s packageId \<noteq> None
           \<and> okUpd \<and> okLog
        then [(ToRoom (roomOf packageId), StatusUpdated packageId status note (sock_userId client) now)]
        else [(ToClient (sock_id client), Error ''Failed to update status'')])"
  proof (cases "statusOfString status")
    case None
    then show ?thesis by (simp add: handleUpdateStatus_bad_status del: statusOfString.simps)
  next
    case st: (Some st)
    show ?thesis
    proof (cases "permitPackage_findUnique s packageId")
      case None
      then show ?thesis by (simp add: handleUpdateStatus_missing del: statusOfString.simps)
    next
      case (Some p)
      show ?thesis
        using st Some by (simp add: handleUpdateStatus_Some[OF st Some] del: statusOfString.simps)
    qed
  qed
next
  show "if statusOfString status \<noteq> None \<and> permitPackage_findUnique s packageId \<noteq> None
           \<and> okUpd \<and> okLog
      then map_option pkg_status
             (permitPackage_findUnique
                (fst (handleUpdateStatus okUpd okLog now s packageId status note client)) packageId)
             = statusOfString status
           \<and> statusLogs (fst (handleUpdateStatus okUpd okLog now s packageId status note client))
             = statusLogs s @ [\<lparr>log_packageId = packageId, log_userId = sock_userId client,
                                 log_status = the (statusOfString status), log_note = note\<rparr>]
      else statusLogs (fst (handleUpdateStatus okUpd okLog now s packageId status note client))
             = statusLogs s"
  proof (cases "statusOfString status")
    case None
    then show ?thesis by (simp add: handleUpdateStatus_bad_status del: statusOfString.simps)
  next
    case st: (Some st)
    show ?thesis
    proof (cases "permitPackage_findUnique s packageId")
      case None
      then show ?thesis by (simp add: handleUpdateStatus_missing del: statusOfString.simps)
    next
      case (Some p)
      have "pkg_id p = packageId" using findUnique_Some_id[OF Some] .
      then show ?thesis
        using st Some
        by (simp add: handleUpdateStatus_Some[OF st Some] findUnique_after_update
              del: statusOfString.simps)
    qed
  qed
qed


theorem broadcast_only_after_persist_witness:
  "snd (handleToggleChecklistItem True 1700 store2 ''pkg-1'' ''item-1'' True alice)
     = [(ToRoom ''package-pkg-1'', ChecklistUpdated ''item-1'' True ''user-1'' 1700)]
   \<and> map_option item_completed
        (packageChecklistItem_findUnique
           (fst (handleToggleChecklistItem True 1700 store2 ''pkg-1'' ''item-1'' True alice)) ''item-1'')
       = Some True
   \<and> snd (handleToggleChecklistItem False 1700 store2 ''pkg-1'' ''item-1'' True alice)
     = [(ToClient ''sock-a'', Error ''Failed to update checklist item'')]
   \<and> fst (handleToggleChecklistItem False 1700 store2 ''pkg-1'' ''item-1'' True alice) = store2
   \<and> snd (handleUpdateStatus True True 1700 store2 ''pkg-1'' ''CLOSED'' None alice)
     = [(ToRoom ''package-pkg-1'', StatusUpdated ''pkg-1'' ''CLOSED'' None ''user-1'' 1700)]
   \<and> snd (handleUpdateStatus True False 1700 store2 ''pkg-1'' ''CLOSED'' None alice)
     = [(ToClient ''sock-a'', Error ''Failed to update status'')]
   \<and> snd (handleUpdateStatus False True 1700 store2 ''pkg-1'' ''CLOSED'' None alice)
     = [(ToClient ''sock-a'', Error ''Failed to update status'')]"
proof -
  have i: "packageChecklistItem_findUnique store2 ''item-1'' \<noteq> None"
    by (simp add: packageChecklistItem_findUnique_def store2_def item1_def)
  have p: "permitPackage_findUnique store2 ''pkg-1'' \<noteq> None"
    by (simp add: permitPackage_findUnique_def store2_def store1_def pkg1_def)
  have st: "statusOfString ''CLOSED'' \<noteq> None" by simp
  have r: "roomOf ''pkg-1'' = ''package-pkg-1''" by (simp add: roomOf_def)
  have a: "sock_id alice = ''sock-a''" "sock_userId alice = ''user-1''" by (simp_all add: alice_def)
  note t1 = broadcast_only_after_persist[of True 1700 store2 "''pkg-1''" "''item-1''" True alice
              True True "''CLOSED''" None]
  note t2 = broadcast_only_after_persist[of False 1700 store2 "''pkg-1''" "''item-1''" True alice
              True False "''CLOSED''" None]
  note t3 = broadcast_only_after_persist[of False 1700 store2 "''pkg-1''" "''item-1''" True alice
              False True "''CLOSED''" None]
  show ?thesis
    using t1 t2 t3 i p st by (simp add: r a del: statusOfString.simps)
qed

section \<open>Joining a package room\<close>

text \<open>
  Claim C7, as the code has it. When the user of a connection is neither the creator nor
  the last updater of package P, \<open>join-package\<close> for P leaves the room table as it
  was, so the connection is not added to the room of P, and emits exactly one \<open>error\<close>
  event, addressed to that connection alone (so no presence event reaches anyone). The
  denial removes nobody from a room either: a later broadcast to the room of P reaches
  exactly the members the room had before, and so reaches the connection if and only if
  it was a member already.
\<close>

theorem join_denied_only_error:
  assumes "\<forall>p \<in> set (permitPackages s).
             pkg_id p = packageId \<longrightarrow>
               pkg_createdById p \<noteq> sock_userId client \<and> pkg_updatedById p \<noteq> Some (sock_userId client)"
  shows "fst (handleJoinPackage okFind now s rooms packageId client) = rooms
       \<and> snd (handleJoinPackage okFind now s rooms packageId client)
           = [(ToClient (sock_id client),
               Error (if okFind then ''Access denied to this package'' else ''Failed to join package''))]
       \<and> (\<forall>t e. (t, e) \<in> set (snd (handleJoinPackage okFind now s rooms packageId client))
              \<longrightarrow> recipients (fst (handleJoinPackage okFind now s rooms packageId client)) t
                    = {sock_id client})
       \<and> recipients (fst (handleJoinPackage okFind now s rooms packageId client))
             (ToRoom (roomOf packageId))
           = rooms (roomOf packageId)
       \<and> (sock_id client \<in> recipients (fst (handleJoinPackage okFind now s rooms packageId client))
                                (ToRoom (roomOf packageId))
            \<longleftrightarrow> sock_id client \<in> rooms (roomOf packageId))"
proof -
  have "find (mayJoin packageId (sock_userId client)) (permitPackages s) = None"
    using assms by (auto simp: find_None_iff mayJoin_def)
  then have eq: "handleJoinPackage okFind now s rooms packageId client
     = (rooms, [(ToClient (sock_id client),
                 Error (if okFind then ''Access denied to this package'' else ''Failed to join package''))])"
    by (simp add: handleJoinPackage_def permitPackage_findFirst_def)
  show ?thesis unfolding eq by simp
qed

theorem join_denied_only_error_witness:
  "fst (handleJoinPackage True 1700 store2 rooms1 ''pkg-1'' mallory) = rooms1
   \<and> snd (handleJoinPackage True 1700 store2 rooms1 ''pkg-1'' mallory)
       = [(ToClient ''sock-m'', Error ''Access denied to this package'')]
   \<and> recipients (fst (handleJoinPackage True 1700 store2 rooms1 ''pkg-1'' mallory))
        (ToRoom ''package-pkg-1'') = {''sock-a''}
   \<and> ''sock-m'' \<notin> rooms1 ''package-pkg-1''
   \<and> ''sock-m'' \<notin> recipients (fst (handleJoinPackage True 1700 store2 rooms1 ''pkg-1'' mallory))
                       (ToRoom ''package-pkg-1'')"
proof -
  have h: "\<forall>p \<in> set (permitPackages store2).
             pkg_id p = ''pkg-1'' \<longrightarrow>
               pkg_createdById p \<noteq> sock_userId mallory \<and> pkg_updatedById p \<noteq> Some (sock_userId mallory)"
    by (simp add: store2_def store1_def pkg1_def mallory_def)
  have m: "sock_id mallory = ''sock-m''" by (simp add: mallory_def)
  have r: "roomOf ''pkg-1'' = ''package-pkg-1''" by (simp add: roomOf_def)
  have n: "rooms1 ''package-pkg-1'' = {''sock-a''}"
    by (simp add: rooms1_def)
  from join_denied_only_error[OF h, of True 1700 rooms1]
  show ?thesis by (simp add: m r n)
qed

text \<open>
  The claim as stated fails where it says that later broadcasts to the room of P are not
  delivered to the connection. In the example history the second user joined the room of
  pkg-1 while being its last updater; after the first user's update that user is neither
  creator nor last updater, the renewed \<open>join-package\<close> is denied with the one
  \<open>error\<close> event, and the socket is still a member of the room, so a broadcast to the
  room reaches it.
\<close>

theorem join_denied_still_member_counterexample:
  "find (mayJoin ''pkg-1'' (sock_userId mallory)) (permitPackages storeUpdatedByAlice) = None
   \<and> snd (handleJoinPackage True 1703 storeUpdatedByAlice roomsWithMallory ''pkg-1'' mallory)
       = [(ToClient ''sock-m'', Error ''Access denied to this package'')]
   \<and> ''sock-m'' \<in> recipients
        (fst (handleJoinPackage True 1703 storeUpdatedByAlice roomsWithMallory ''pkg-1'' mallory))
        (ToRoom (roomOf ''pkg-1''))"
proof -
  have p: "permitPackage_findUnique store2 ''pkg-1'' = Some pkg1"
    by (simp add: permitPackage_findUnique_def store2_def store1_def pkg1_def)
  have sA: "permitPackages storeUpdatedByMallory
              = [pkg1\<lparr>pkg_status := IN_REVIEW, pkg_updatedById := Some ''user-7''\<rparr>]"
    unfolding storeUpdatedByMallory_def
    by (simp add: handleUpdateStatus_Some[OF _ p] mallory_def)
       (simp add: store2_def store1_def pkg1_def)
  have pA: "permitPackage_findUnique storeUpdatedByMallory ''pkg-1''
              = Some (pkg1\<lparr>pkg_status := IN_REVIEW, pkg_updatedById := Some ''user-7''\<rparr>)"
    by (simp add: permitPackage_findUnique_def sA pkg1_def)
  have rA: "roomsWithMallory = (\<lambda>r. {})(''package-pkg-1'' := {''sock-m''})"
    unfolding roomsWithMallory_def
    by (simp add: handleJoinPackage_def permitPackage_findFirst_def sA mayJoin_def pkg1_def
          mallory_def roomOf_def)
  have sB: "permitPackages storeUpdatedByAlice
              = [pkg1\<lparr>pkg_status := SUBMITTED, pkg_updatedById := Some ''user-1''\<rparr>]"
    unfolding storeUpdatedByAlice_def
    by (simp add: handleUpdateStatus_Some[OF _ pA] alice_def)
       (simp add: sA pkg1_def)
  have denied: "find (mayJoin ''pkg-1'' (sock_userId mallory)) (permitPackages storeUpdatedByAlice) = None"
    by (simp add: sB mayJoin_def pkg1_def mallory_def)
  then have run: "handleJoinPackage True 1703 storeUpdatedByAlice roomsWithMallory ''pkg-1'' mallory
      = (roomsWithMallory, [(ToClient ''sock-m'', Error ''Access denied to this package'')])"
    by (simp add: handleJoinPackage_def permitPackage_findFirst_def mallory_def)
  show ?thesis
    unfolding run using denied by (simp add: rA roomOf_def)
qed

section \<open>Toggling a checklist item\<close>

lemma item_findUnique_after_update:
  assumes "\<And>q. item_id (f q) = item_id q"
  shows "packageChecklistItem_findUnique
           (s\<lparr>packageChecklistItems := map (\<lambda>q. if item_id q = i then f q else q) (packageChecklistItems s)\<rparr>) j
         = map_option (\<lambda>q. if item_id q = i then f q else q) (packageChecklistItem_findUnique s j)"
  using assms by (simp add: packageChecklistItem_findUnique_def find_item_map_update)

lemma updateChecklistItem_None:
  "packageChecklistItem_findUnique s itemId = None \<Longrightarrow>
   updateChecklistItem okUpdate now s itemId completed notes
     = (s, Inl (NotFoundException ''Checklist item not found''))"
  by (simp add: updateChecklistItem_def)

lemma updateChecklistItem_Some:
  assumes "packageChecklistItem_findUnique s itemId = Some c"
  shows "updateChecklistItem True now s itemId completed notes =
    (s\<lparr>packageChecklistItems :=
         map (\<lambda>q. if item_id q = itemId
                   then q\<lparr>item_completed := completed,
                          item_completedAt := (if completed then Some now else None),
                          item_notes := (case notes of None \<Rightarrow> item_notes q | Some n \<Rightarrow> Some n)\<rparr>
                   else q) (packageChecklistItems s)\<rparr>,
     Inr (c\<lparr>item_completed := completed,
             item_completedAt := (if completed then Some now else None),
             item_notes := (case notes of None \<Rightarrow> item_notes c | Some n \<Rightarrow> Some n)\<rparr>))"
  using assms by (simp add: updateChecklistItem_def packageChecklistItem_update_def)

lemma updateChecklistItem_stored:
  assumes "packageChecklistItem_findUnique s itemId = Some c"
  shows "packageChecklistItem_findUnique (fst (updateChecklistItem True now s itemId completed notes)) itemId
     = Some (c\<lparr>item_completed := completed,
               item_completedAt := (if completed then Some now else None),
               item_notes := (case notes of None \<Rightarrow> item_notes c | Some n \<Rightarrow> Some n)\<rparr>)"
proof -
  have id: "item_id c = itemId" using item_findUnique_Some_id[OF assms] .
  show ?thesis
    by (simp add: updateChecklistItem_Some[OF assms] item_findUnique_after_update assms id)
qed

lemma handleToggle_None:
  "packageChecklistItem_findUnique s itemId = None \<Longrightarrow>
   handleToggleChecklistItem okUpdate now s packageId itemId completed client
     = (s, [(ToClient (sock_id client), Error ''Failed to update checklist item'')])"
  by (simp add: handleToggle_eq)

lemma handleToggle_stored:
  assumes "packageChecklistItem_findUnique s itemId = Some c"
  shows "packageChecklistItem_findUnique
           (fst (handleToggleChecklistItem True now s packageId itemId completed client)) itemId
     = Some (c\<lparr>item_completed := completed,
               item_completedAt := (if completed then Some now else None)\<rparr>)"
proof -
  have id: "item_id c = itemId" using item_findUnique_Some_id[OF assms] .
  show ?thesis
    by (simp add: handleToggle_eq item_findUnique_after_update assms id)
qed

lemma toggleAll_exists:
  "packageChecklistItem_findUnique s itemId \<noteq> None \<Longrightarrow>
   packageChecklistItem_findUnique (toggleAll s itemId calls) itemId \<noteq> None"
proof (induction calls arbitrary: s)
  case Nil
  then show ?case by simp
next
  case (Cons call calls)
  from Cons.prems obtain c where c: "packageChecklistItem_findUnique s itemId = Some c" by blast
  show ?case
  proof (cases call)
    case (ViaService t b n)
    show ?thesis
      unfolding ViaService toggleAll.simps
      by (rule Cons.IH) (simp add: updateChecklistItem_stored[OF c])
  next
    case (ViaGateway t pid b sock)
    show ?thesis
      unfolding ViaGateway toggleAll.simps
      by (rule Cons.IH) (simp add: handleToggle_stored[OF c])
  qed
qed

lemma toggleAll_append:
  "toggleAll s itemId (xs @ ys) = toggleAll (toggleAll s itemId xs) itemId ys"
proof (induction xs arbitrary: s)
  case Nil
  then show ?case by simp
next
  case (Cons call xs)
  then show ?case by (cases call) simp_all
qed

text \<open>
  Claim C5. A toggle of an item that does not exist signals the failure and leaves the
  store as it was: \<open>updateChecklistItem\<close> throws NotFound, and the gateway handler
  emits one \<open>error\<close> event to the caller. When the item exists, the service method
  stores and returns it with \<open>completed\<close> set to the given value, \<open>completedAt\<close>
  set to the current time when the value is true and to null when it is false, and the
  notes replaced when notes are given (kept otherwise); the gateway handler stores the
  same two completion fields and keeps the notes. Hence after any run of toggles, by
  either path, the item shows the flag of the last call, with \<open>completedAt\<close> null
  after a toggle to false and the time of that call after a toggle to true.
\<close>

theorem updateChecklistItem_effect:
  "(packageChecklistItem_findUnique s itemId = None \<longrightarrow>
      updateChecklistItem okUpdate now s itemId completed notes
        = (s, Inl (NotFoundException ''Checklist item not found''))
      \<and> handleToggleChecklistItem okUpdate now s packageId itemId completed client
        = (s, [(ToClient (sock_id client), Error ''Failed to update checklist item'')]))
   \<and> (\<forall>c. packageChecklistItem_findUnique s itemId = Some c \<longrightarrow>
        snd (updateChecklistItem True now s itemId completed notes)
          = Inr (c\<lparr>item_completed := completed,
                    item_completedAt := (if completed then Some now else None),
                    item_notes := (case notes of None \<Rightarrow> item_notes c | Some n \<Rightarrow> Some n)\<rparr>)
        \<and> packageChecklistItem_findUnique
             (fst (updateChecklistItem True now s itemId completed notes)) itemId
          = Some (c\<lparr>item_completed := completed,
                     item_completedAt := (if completed then Some now else None),
                     item_notes := (case notes of None \<Rightarrow> item_notes c | Some n \<Rightarrow> Some n)\<rparr>)
        \<and> packageChecklistItem_findUnique
             (fst (handleToggleChecklistItem True now s packageId itemId completed client)) itemId
          = Some (c\<lparr>item_completed := completed,
                     item_completedAt := (if completed then Some now else None)\<rparr>)
        \<and> map_option (\<lambda>c'. (item_completed c', item_completedAt c'))
             (packageChecklistItem_findUnique
                (toggleAll s itemId (calls @ [ViaService now completed notes])) itemId)
          = Some (completed, if completed then Some now else None)
        \<and> map_option (\<lambda>c'. (item_completed c', item_completedAt c'))
             (packageChecklistItem_findUnique
                (toggleAll s itemId (calls @ [ViaGateway now packageId completed client])) itemId)
          = Some (completed, if completed then Some now else None))"
proof (intro conjI allI impI)
  assume "packageChecklistItem_findUnique s itemId = None"
  then show "updateChecklistItem okUpdate now s itemId completed notes
        = (s, Inl (NotFoundException ''Checklist item not found''))"
    by (rule updateChecklistItem_None)
next
  assume "packageChecklistItem_findUnique s itemId = None"
  then show "handleToggleChecklistItem okUpdate now s packageId itemId completed client
        = (s, [(ToClient (sock_id client), Error ''Failed to update checklist item'')])"
    by (rule handleToggle_None)
next
  fix c assume c: "packageChecklistItem_findUnique s itemId = Some c"
  show "snd (updateChecklistItem True now s itemId completed notes)
          = Inr (c\<lparr>item_completed := completed,
                    item_completedAt := (if completed then Some now else None),
                    item_notes := (case notes of None \<Rightarrow> item_notes c | Some n \<Rightarrow> Some n)\<rparr>)"
    by (simp add: updateChecklistItem_Some[OF c])
next
  fix c assume c: "packageChecklistItem_findUnique s itemId = Some c"
  show "packageChecklistItem_findUnique
             (fst (updateChecklistItem True now s itemId completed notes)) itemId
          = Some (c\<lparr>item_completed := completed,
                     item_completedAt := (if completed then Some now else None),
                     item_notes := (case notes of None \<Rightarrow> item_notes c | Some n \<Rightarrow> Some n)\<rparr>)"
    by (rule updateChecklistItem_stored[OF c])
next
  fix c assume c: "packageChecklistItem_findUnique s itemId = Some c"
  show "packageChecklistItem_findUnique
             (fst (handleToggleChecklistItem True now s packageId itemId completed client)) itemId
          = Some (c\<lparr>item_completed := completed,
                     item_completedAt := (if completed then Some now else None)\<rparr>)"
    by (rule handleToggle_stored[OF c])
next
  fix c assume c: "packageChecklistItem_findUnique s itemId = Some c"
  then have "packageChecklistItem_findUnique (toggleAll s itemId calls) itemId \<noteq> None"
    by (intro toggleAll_exists) simp
  then obtain d where d: "packageChecklistItem_findUnique (toggleAll s itemId calls) itemId = Some d"
    by blast
  show "map_option (\<lambda>c'. (item_completed c', item_completedAt c'))
             (packageChecklistItem_findUnique
                (toggleAll s itemId (calls @ [ViaService now completed notes])) itemId)
          = Some (completed, if completed then Some now else None)"
    by (simp add: toggleAll_append updateChecklistItem_stored[OF d])
next
  fix c assume c: "packageChecklistItem_findUnique s itemId = Some c"
  then have "packageChecklistItem_findUnique (toggleAll s itemId calls) itemId \<noteq> None"
    by (intro toggleAll_exists) simp
  then obtain d where d: "packageChecklistItem_findUnique (toggleAll s itemId calls) itemId = Some d"
    by blast
  show "map_option (\<lambda>c'. (item_completed c', item_completedAt c'))
             (packageChecklistItem_findUnique
                (toggleAll s itemId (calls @ [ViaGateway now packageId completed client])) itemId)
          = Some (completed, if completed then Some now else None)"
    by (simp add: toggleAll_append handleToggle_stored[OF d])
qed

theorem updateChecklistItem_effect_witness:
  "packageChecklistItem_findUnique store2 ''item-9'' = None
   \<and> updateChecklistItem True 1700 store2 ''item-9'' True None
       = (store2, Inl (NotFoundException ''Checklist item not found''))
   \<and> handleToggleChecklistItem True 1700 store2 ''pkg-1'' ''item-9'' True alice
       = (store2, [(ToClient ''sock-a'', Error ''Failed to update checklist item'')])
   \<and> packageChecklistItem_findUnique store2 ''item-1'' = Some item1
   \<and> snd (updateChecklistItem True 1703 store2 ''item-1'' True (Some ''stamped''))
       = Inr (item1\<lparr>item_completed := True, item_completedAt := Some 1703,
                     item_notes := Some ''stamped''\<rparr>)
   \<and> packageChecklistItem_findUnique
        (fst (handleToggleChecklistItem True 1703 store2 ''pkg-1'' ''item-1'' True alice)) ''item-1''
       = Some (item1\<lparr>item_completed := True, item_completedAt := Some 1703\<rparr>)
   \<and> map_option (\<lambda>c'. (item_completed c', item_completedAt c'))
        (packageChecklistItem_findUnique
           (toggleAll store2 ''item-1''
              [ViaGateway 1701 ''pkg-1'' True alice, ViaService 1702 False None,
               ViaService 1703 True (Some ''stamped'')])
           ''item-1'')
       = Some (True, Some 1703)
   \<and> map_option (\<lambda>c'. (item_completed c', item_completedAt c'))
        (packageChecklistItem_findUnique
           (toggleAll store2 ''item-1''
              [ViaService 1701 True None, ViaGateway 1702 ''pkg-1'' False alice])
           ''item-1'')
       = Some (False, None)"
proof -
  have n: "packageChecklistItem_findUnique store2 ''item-9'' = None"
    by (simp add: packageChecklistItem_findUnique_def store2_def item1_def)
  have i: "packageChecklistItem_findUnique store2 ''item-1'' = Some item1"
    by (simp add: packageChecklistItem_findUnique_def store2_def item1_def)
  have sa: "sock_id alice = ''sock-a''" by (simp add: alice_def)
  note t1 = updateChecklistItem_effect[of store2 "''item-9''" True 1700 True None
              "''pkg-1''" alice "[]"]
  note t2 = updateChecklistItem_effect[of store2 "''item-1''" True 1703 True "Some ''stamped''"
              "''pkg-1''" alice "[ViaGateway 1701 ''pkg-1'' True alice, ViaService 1702 False None]"]
  note t3 = updateChecklistItem_effect[of store2 "''item-1''" True 1702 False None
              "''pkg-1''" alice "[ViaService 1701 True None]"]
  have a: "updateChecklistItem True 1700 store2 ''item-9'' True None
       = (store2, Inl (NotFoundException ''Checklist item not found''))"
    using t1 n by blast
  have a': "handleToggleChecklistItem True 1700 store2 ''pkg-1'' ''item-9'' True alice
       = (store2, [(ToClient ''sock-a'', Error ''Failed to update checklist item'')])"
    using t1 n sa by simp
  have b: "snd (updateChecklistItem True 1703 store2 ''item-1'' True (Some ''stamped''))
       = Inr (item1\<lparr>item_completed := True, item_completedAt := Some 1703,
                     item_notes := Some ''stamped''\<rparr>)"
    using t2 i by simp
  have b': "packageChecklistItem_findUnique
        (fst (handleToggleChecklistItem True 1703 store2 ''pkg-1'' ''item-1'' True alice)) ''item-1''
       = Some (item1\<lparr>item_completed := True, item_completedAt := Some 1703\<rparr>)"
    using t2 i by simp
  have c: "map_option (\<lambda>c'. (item_completed c', item_completedAt c'))
        (packageChecklistItem_findUnique
           (toggleAll store2 ''item-1''
              [ViaGateway 1701 ''pkg-1'' True alice, ViaService 1702 False None,
               ViaService 1703 True (Some ''stamped'')])
           ''item-1'')
       = Some (True, Some 1703)"
    using t2 i by simp
  have d: "map_option (\<lambda>c'. (item_completed c', item_completedAt c'))
        (packageChecklistItem_findUnique
           (toggleAll store2 ''item-1''
              [ViaService 1701 True None, ViaGateway 1702 ''pkg-1'' False alice])
           ''item-1'')
       = Some (False, None)"
    using t3 i by simp
  show ?thesis using n i a a' b b' c d by blast
qed

section \<open>Creating checklist items from supplied template rows\<close>

lemma promise_all_map:
  "promise_all (map (\<lambda>x. if P x then Inr (f x) else Inl e) xs)
     = (if \<forall>x \<in> set xs. P x then Inr (map f xs) else Inl e)"
  by (induction xs) auto

lemma createEach_eq:
  "createEach ok newId k s packageId ts =
     (s\<lparr>packageChecklistItems := packageChecklistItems s @
          map (\<lambda>x. newChecklistItem (newId (fst x)) packageId (snd x))
            (filter (\<lambda>x. ok (fst x)) (enumerate k ts))\<rparr>,
      map (\<lambda>x. if ok (fst x) then Inr (newChecklistItem (newId (fst x)) packageId (snd x))
                else Inl StoreFailure)
        (enumerate k ts))"
proof (induction ts arbitrary: k s)
  case Nil
  then show ?case by simp
next
  case (Cons t ts)
  show ?case
    by (simp add: Cons.IH packageChecklistItem_create_def)
qed

lemma all_enumerate_ok:
  "(\<forall>x \<in> set (enumerate 0 ts). ok (fst x)) \<longleftrightarrow> (\<forall>j < length ts. ok j)"
proof
  assume a: "\<forall>x \<in> set (enumerate 0 ts). ok (fst x)"
  show "\<forall>j < length ts. ok j"
  proof (intro allI impI)
    fix j assume "j < length ts"
    then have "(j, ts ! j) \<in> set (enumerate 0 ts)" by (simp add: in_set_enumerate_eq)
    with a show "ok j" by fastforce
  qed
next
  assume "\<forall>j < length ts. ok j"
  then show "\<forall>x \<in> set (enumerate 0 ts). ok (fst x)"
    by (auto simp: in_set_enumerate_eq)
qed

lemma createChecklistItems_Some:
  assumes "permitPackage_findUnique s packageId = Some p"
  shows "createChecklistItems ok newId s packageId ts =
     (s\<lparr>packageChecklistItems := packageChecklistItems s @
          map (\<lambda>x. newChecklistItem (newId (fst x)) packageId (snd x))
            (filter (\<lambda>x. ok (fst x)) (enumerate 0 ts))\<rparr>,
      if \<forall>j < length ts. ok j
      then Inr (map (\<lambda>x. newChecklistItem (newId (fst x)) packageId (snd x)) (enumerate 0 ts))
      else Inl StoreFailure)"
  using assms
  by (simp add: createChecklistItems_def createEach_eq promise_all_map all_enumerate_ok)

text \<open>
  Claim C6. \<open>createChecklistItems\<close> signals NotFound when the package does not exist.
  For an existing package the call succeeds exactly when every insert succeeds, and then
  the rows added to the store, which are also the rows returned, are one per supplied
  template row, in order: label, category, required flag and sort order copied, the
  package id set, \<open>completed\<close> false, \<open>completedAt\<close> null. The permit type of a
  supplied row is not looked at and no other row is added.
\<close>

theorem createChecklistItems_clones_supplied_rows:
  "(permitPackage_findUnique s packageId = None \<longrightarrow>
      createChecklistItems ok newId s packageId templateItems
        = (s, Inl (NotFoundException ''Permit package not found'')))
   \<and> (permitPackage_findUnique s packageId \<noteq> None \<longrightarrow>
        (isl (snd (createChecklistItems ok newId s packageId templateItems))
           \<longleftrightarrow> \<not> (\<forall>k < length templateItems. ok k))
      \<and> ((\<forall>k < length templateItems. ok k) \<longrightarrow>
          (\<exists>items.
             createChecklistItems ok newId s packageId templateItems
               = (s\<lparr>packageChecklistItems := packageChecklistItems s @ items\<rparr>, Inr items)
           \<and> length items = length templateItems
           \<and> (\<forall>k < length templateItems.
                 items ! k =
                   \<lparr>item_id = newId k, item_packageId = packageId,
                    item_label = tpl_label (templateItems ! k),
                    item_category = tpl_category (templateItems ! k),
                    item_required = tpl_required (templateItems ! k),
                    item_sort = tpl_sort (templateItems ! k),
                    item_completed = False, item_completedAt = None, item_notes = None\<rparr>))))"
proof (intro conjI impI)
  assume "permitPackage_findUnique s packageId = None"
  then show "createChecklistItems ok newId s packageId templateItems
        = (s, Inl (NotFoundException ''Permit package not found''))"
    by (simp add: createChecklistItems_def)
next
  assume "permitPackage_findUnique s packageId \<noteq> None"
  then obtain p where p: "permitPackage_findUnique s packageId = Some p" by blast
  show "isl (snd (createChecklistItems ok newId s packageId templateItems))
           \<longleftrightarrow> \<not> (\<forall>k < length templateItems. ok k)"
    by (simp add: createChecklistItems_Some[OF p])
next
  assume "permitPackage_findUnique s packageId \<noteq> None"
  then obtain p where p: "permitPackage_findUnique s packageId = Some p" by blast
  assume allok: "\<forall>k < length templateItems. ok k"
  define items where
    "items = map (\<lambda>x. newChecklistItem (newId (fst x)) packageId (snd x)) (enumerate 0 templateItems)"
  have keep: "filter (\<lambda>x. ok (fst x)) (enumerate 0 templateItems) = enumerate 0 templateItems"
    using allok by (intro filter_True) (auto simp: in_set_enumerate_eq)
  have run: "createChecklistItems ok newId s packageId templateItems
               = (s\<lparr>packageChecklistItems := packageChecklistItems s @ items\<rparr>, Inr items)"
    using allok by (simp add: createChecklistItems_Some[OF p] keep items_def)
  have len: "length items = length templateItems"
    by (simp add: items_def)
  have nth: "\<forall>k < length templateItems.
                 items ! k =
                   \<lparr>item_id = newId k, item_packageId = packageId,
                    item_label = tpl_label (templateItems ! k),
                    item_category = tpl_category (templateItems ! k),
                    item_required = tpl_required (templateItems ! k),
                    item_sort = tpl_sort (templateItems ! k),
                    item_completed = False, item_completedAt = None, item_notes = None\<rparr>"
    by (simp add: items_def nth_enumerate_eq newChecklistItem_def)
  show "\<exists>items.
             createChecklistItems ok newId s packageId templateItems
               = (s\<lparr>packageChecklistItems := packageChecklistItems s @ items\<rparr>, Inr items)
           \<and> length items = length templateItems
           \<and> (\<forall>k < length templateItems.
                 items ! k =
                   \<lparr>item_id = newId k, item_packageId = packageId,
                    item_label = tpl_label (templateItems ! k),
                    item_category = tpl_category (templateItems ! k),
                    item_required = tpl_required (templateItems ! k),
                    item_sort = tpl_sort (templateItems ! k),
                    item_completed = False, item_completedAt = None, item_notes = None\<rparr>)"
    using run len nth by blast
qed

theorem createChecklistItems_clones_supplied_rows_witness:
  "permitPackage_findUnique store2 ''pkg-9'' = None
   \<and> createChecklistItems (\<lambda>k. True) itemIds store2 ''pkg-9'' [tplResidential]
       = (store2, Inl (NotFoundException ''Permit package not found''))
   \<and> permitPackage_findUnique store2 ''pkg-1'' \<noteq> None
   \<and> pkg_permitType pkg1 = MOBILE_HOME
   \<and> (\<exists>items.
         createChecklistItems (\<lambda>k. True) itemIds store2 ''pkg-1'' [tplResidential, tplGeneric]
           = (store2\<lparr>packageChecklistItems := packageChecklistItems store2 @ items\<rparr>, Inr items)
       \<and> length items = 2
       \<and> items ! 0 =
            \<lparr>item_id = itemIds 0, item_packageId = ''pkg-1'', item_label = ''Energy form'',
             item_category = ''Forms'', item_required = False, item_sort = 2,
             item_completed = False, item_completedAt = None, item_notes = None\<rparr>
       \<and> items ! 1 =
            \<lparr>item_id = itemIds 1, item_packageId = ''pkg-1'', item_label = ''Site plan'',
             item_category = ''Plans'', item_required = True, item_sort = 1,
             item_completed = False, item_completedAt = None, item_notes = None\<rparr>)"
proof -
  have n: "permitPackage_findUnique store2 ''pkg-9'' = None"
    by (simp add: permitPackage_findUnique_def store2_def store1_def pkg1_def)
  have e: "permitPackage_findUnique store2 ''pkg-1'' \<noteq> None"
    by (simp add: permitPackage_findUnique_def store2_def store1_def pkg1_def)
  have t: "pkg_permitType pkg1 = MOBILE_HOME" by (simp add: pkg1_def)
  note t1 = createChecklistItems_clones_supplied_rows[of store2 "''pkg-9''" "\<lambda>k. True" itemIds
              "[tplResidential]"]
  note t2 = createChecklistItems_clones_supplied_rows[of store2 "''pkg-1''" "\<lambda>k. True" itemIds
              "[tplResidential, tplGeneric]"]
  have a: "createChecklistItems (\<lambda>k. True) itemIds store2 ''pkg-9'' [tplResidential]
       = (store2, Inl (NotFoundException ''Permit package not found''))"
    using t1 n by blast
  from t2 e obtain items where
    r: "createChecklistItems (\<lambda>k. True) itemIds store2 ''pkg-1'' [tplResidential, tplGeneric]
           = (store2\<lparr>packageChecklistItems := packageChecklistItems store2 @ items\<rparr>, Inr items)"
    and l: "length items = length [tplResidential, tplGeneric]"
    and k: "\<forall>k < length [tplResidential, tplGeneric].
                 items ! k =
                   \<lparr>item_id = itemIds k, item_packageId = ''pkg-1'',
                    item_label = tpl_label ([tplResidential, tplGeneric] ! k),
                    item_category = tpl_category ([tplResidential, tplGeneric] ! k),
                    item_required = tpl_required ([tplResidential, tplGeneric] ! k),
                    item_sort = tpl_sort ([tplResidential, tplGeneric] ! k),
                    item_completed = False, item_completedAt = None, item_notes = None\<rparr>"
    by auto
  have k0: "items ! 0 =
            \<lparr>item_id = itemIds 0, item_packageId = ''pkg-1'', item_label = ''Energy form'',
             item_category = ''Forms'', item_required = False, item_sort = 2,
             item_completed = False, item_completedAt = None, item_notes = None\<rparr>"
    using k[rule_format, of 0] by (simp add: tplResidential_def)
  have k1: "items ! 1 =
            \<lparr>item_id = itemIds 1, item_packageId = ''pkg-1'', item_label = ''Site plan'',
             item_category = ''Plans'', item_required = True, item_sort = 1,
             item_completed = False, item_completedAt = None, item_notes = None\<rparr>"
    using k[rule_format, of 1] by (simp add: tplGeneric_def)
  have l2: "length items = 2" using l by simp
  show ?thesis using n a e t r l2 k0 k1 by blast
qed

section \<open>Facts about package creation\<close>

lemma create_checklist_untouched:
  "packageChecklistItems (fst (create okCount okCreate okLog year newId s dto userId))
     = packageChecklistItems s"
  by (simp add: create_def generatePackageNumber_def permitPackage_count_def
        permitPackage_create_def statusLog_create_def permitPackage_findUnique_def)

lemma find_append_new:
  "find P xs = None \<Longrightarrow> P x \<Longrightarrow> find P (xs @ [x]) = Some x"
  by (induction xs) (auto split: if_splits)

lemma create_success:
  assumes "create okCount okCreate okLog year newId s dto userId = (s0, Inr (pkg, items))"
  shows "permitPackage_findUnique s newId = None
       \<and> pkg = \<lparr>pkg_id = newId,
                pkg_packageNumber = yearPrefix year @ padStart 4 (CHR ''0'')
                  (toString (length (filter (\<lambda>p. startsWith (pkg_packageNumber p) (yearPrefix year))
                                      (permitPackages s)) + 1)),
                pkg_permitType = dto_permitType dto, pkg_customerId = dto_customerId dto,
                pkg_countyId = dto_countyId dto, pkg_status = DRAFT,
                pkg_createdById = userId, pkg_updatedById = None\<rparr>
       \<and> s0 = s\<lparr>permitPackages := permitPackages s @ [pkg],
                 statusLogs := statusLogs s @
                   [\<lparr>log_packageId = newId, log_userId = userId, log_status = DRAFT,
                     log_note = Some ''Package created''\<rparr>]\<rparr>
       \<and> items = filter (\<lambda>c. item_packageId c = newId) (packageChecklistItems s)"
  using assms
  by (auto simp: create_def generatePackageNumber_def permitPackage_count_def
        permitPackage_create_def statusLog_create_def split: if_splits sum.splits prod.splits)


section \<open>The audit trail of a package\<close>

lemma updateStatus_success:
  assumes "updateStatus okUpdate okLog s i st userId note = (s', Inr r)"
  shows "\<exists>p. permitPackage_findUnique s i = Some p
           \<and> s' = s\<lparr>permitPackages :=
                       map (\<lambda>q. if pkg_id q = i
                                 then q\<lparr>pkg_status := st, pkg_updatedById := Some userId\<rparr> else q)
                         (permitPackages s),
                     statusLogs := statusLogs s @
                       [\<lparr>log_packageId = i, log_userId = userId, log_status = st, log_note = note\<rparr>]\<rparr>"
proof (cases "permitPackage_findUnique s i")
  case None
  with assms show ?thesis by (simp add: updateStatus_None)
next
  case (Some p)
  with assms show ?thesis
    by (simp add: updateStatus_Some[OF Some] split: if_splits)
qed

text \<open>
  What the trail of package \<open>pid\<close> looks like after \<open>n\<close> entries: the package exists,
  its trail starts with the entry \<open>l0\<close>, has \<open>n\<close> entries, and ends with the
  package's current status.
\<close>

lemma trail_step:
  assumes run: "updateStatus okUpdate okLog s i st userId note = (s', Inr r)"
    and p: "permitPackage_findUnique s pid = Some p"
    and ne: "logsOf s pid \<noteq> []"
    and last: "log_status (last (logsOf s pid)) = pkg_status p"
  shows "\<exists>p'. permitPackage_findUnique s' pid = Some p'
           \<and> logsOf s' pid \<noteq> []
           \<and> hd (logsOf s' pid) = hd (logsOf s pid)
           \<and> length (logsOf s' pid) = length (logsOf s pid) + (if i = pid then 1 else 0)
           \<and> log_status (last (logsOf s' pid)) = pkg_status p'"
proof -
  from updateStatus_success[OF run] obtain q where
    q: "permitPackage_findUnique s i = Some q" and
    s': "s' = s\<lparr>permitPackages :=
                       map (\<lambda>q. if pkg_id q = i
                                 then q\<lparr>pkg_status := st, pkg_updatedById := Some userId\<rparr> else q)
                         (permitPackages s),
                     statusLogs := statusLogs s @
                       [\<lparr>log_packageId = i, log_userId = userId, log_status = st, log_note = note\<rparr>]\<rparr>"
    by blast
  have pid: "pkg_id p = pid" using findUnique_Some_id[OF p] .
  have logs: "logsOf s' pid = logsOf s pid @
     (if i = pid then [\<lparr>log_packageId = i, log_userId = userId, log_status = st, log_note = note\<rparr>]
      else [])"
    by (simp add: s' logsOf_def)
  have pkg: "permitPackage_findUnique s' pid
      = Some (if i = pid then p\<lparr>pkg_status := st, pkg_updatedById := Some userId\<rparr> else p)"
    by (simp add: s' findUnique_after_update p pid)
  show ?thesis
    using ne last by (simp add: logs pkg)
qed

lemma trail_run:
  assumes "updateStatusAll s calls = Some s'"
    and "permitPackage_findUnique s pid = Some p"
    and "logsOf s pid \<noteq> []"
    and "log_status (last (logsOf s pid)) = pkg_status p"
  shows "\<exists>p'. permitPackage_findUnique s' pid = Some p'
           \<and> logsOf s' pid \<noteq> []
           \<and> hd (logsOf s' pid) = hd (logsOf s pid)
           \<and> length (logsOf s' pid)
               = length (logsOf s pid) + length (filter (\<lambda>c. fst (snd (snd c)) = pid) calls)
           \<and> log_status (last (logsOf s' pid)) = pkg_status p'"
  using assms
proof (induction calls arbitrary: s p)
  case Nil
  then show ?case by simp
next
  case (Cons call calls)
  obtain okU okL i st u n where call: "call = (okU, okL, i, st, u, n)"
    by (cases call) auto
  from Cons.prems(1) obtain s1 r where
    step: "updateStatus okU okL s i st u n = (s1, Inr r)" and
    rest: "updateStatusAll s1 calls = Some s'"
    by (auto simp: call split: prod.splits sum.splits)
  from trail_step[OF step Cons.prems(2) Cons.prems(3) Cons.prems(4)] obtain p1 where
    p1: "permitPackage_findUnique s1 pid = Some p1" and
    ne1: "logsOf s1 pid \<noteq> []" and
    hd1: "hd (logsOf s1 pid) = hd (logsOf s pid)" and
    len1: "length (logsOf s1 pid) = length (logsOf s pid) + (if i = pid then 1 else 0)" and
    last1: "log_status (last (logsOf s1 pid)) = pkg_status p1"
    by blast
  from Cons.IH[OF rest p1 ne1 last1] obtain p' where
    "permitPackage_findUnique s' pid = Some p'" "logsOf s' pid \<noteq> []"
    "hd (logsOf s' pid) = hd (logsOf s1 pid)"
    "length (logsOf s' pid)
       = length (logsOf s1 pid) + length (filter (\<lambda>c. fst (snd (snd c)) = pid) calls)"
    "log_status (last (logsOf s' pid)) = pkg_status p'"
    by blast
  then show ?case
    using hd1 len1 by (simp add: call)
qed

lemma no_logs_for_missing_package:
  assumes "\<forall>l \<in> set (statusLogs s). permitPackage_findUnique s (log_packageId l) \<noteq> None"
    and "permitPackage_findUnique s pid = None"
  shows "logsOf s pid = []"
  using assms by (auto simp: logsOf_def filter_empty_conv)

text \<open>
  Claim C2. Take a store whose log rows all belong to stored packages, a successful
  \<open>create\<close> on it, and then any run of successful \<open>updateStatus\<close> calls. The
  trail of the new package has one entry more than the run has calls on that package, its
  first entry is the \<open>DRAFT\<close> entry with the note "Package created", and the status
  of its latest entry is the current status of the package.
\<close>

theorem audit_trail_complete:
  assumes wf: "\<forall>l \<in> set (statusLogs s). permitPackage_findUnique s (log_packageId l) \<noteq> None"
    and cr: "create okCount okCreate okLog year newId s dto userId = (s0, Inr (pkg, items))"
    and run: "updateStatusAll s0 calls = Some s'"
  shows "length (logsOf s' (pkg_id pkg))
           = length (filter (\<lambda>c. fst (snd (snd c)) = pkg_id pkg) calls) + 1
       \<and> hd (logsOf s' (pkg_id pkg))
           = \<lparr>log_packageId = pkg_id pkg, log_userId = userId, log_status = DRAFT,
              log_note = Some ''Package created''\<rparr>
       \<and> map_option pkg_status (permitPackage_findUnique s' (pkg_id pkg))
           = Some (log_status (last (logsOf s' (pkg_id pkg))))"
proof -
  from create_success[OF cr] have
    fresh: "permitPackage_findUnique s newId = None" and
    id: "pkg_id pkg = newId" and
    st: "pkg_status pkg = DRAFT" and
    s0: "s0 = s\<lparr>permitPackages := permitPackages s @ [pkg],
                 statusLogs := statusLogs s @
                   [\<lparr>log_packageId = newId, log_userId = userId, log_status = DRAFT,
                     log_note = Some ''Package created''\<rparr>]\<rparr>"
    by simp_all
  have old: "logsOf s newId = []"
    using no_logs_for_missing_package[OF wf fresh] .
  have logs0: "logsOf s0 newId
      = [\<lparr>log_packageId = newId, log_userId = userId, log_status = DRAFT,
           log_note = Some ''Package created''\<rparr>]"
    using old by (simp add: s0 logsOf_def)
  have pkg0: "permitPackage_findUnique s0 newId = Some pkg"
    using fresh id by (simp add: s0 permitPackage_findUnique_def find_append_new)
  have ne0: "logsOf s0 newId \<noteq> []" by (simp add: logs0)
  have last0: "log_status (last (logsOf s0 newId)) = pkg_status pkg"
    by (simp add: logs0 st)
  from trail_run[OF run pkg0 ne0 last0] obtain p' where
    "permitPackage_findUnique s' newId = Some p'"
    "hd (logsOf s' newId) = hd (logsOf s0 newId)"
    "length (logsOf s' newId)
       = length (logsOf s0 newId) + length (filter (\<lambda>c. fst (snd (snd c)) = newId) calls)"
    "log_status (last (logsOf s' newId)) = pkg_status p'"
    by blast
  then show ?thesis
    by (simp add: id logs0)
qed


text \<open>The example creation and the example run, evaluated.\<close>

lemma yearPrefix_2024: "yearPrefix 2024 = ''PKG-2024-''"
  by code_simp

lemma create_pkg2:
  "create True True True 2024 ''pkg-2'' store3 dto1 ''user-1''
     = (store3\<lparr>permitPackages := [pkg1, pkg2],
               statusLogs := statusLogs store3 @
                 [\<lparr>log_packageId = ''pkg-2'', log_userId = ''user-1'', log_status = DRAFT,
                   log_note = Some ''Package created''\<rparr>]\<rparr>,
        Inr (pkg2, []))"
  by code_simp

lemma run_calls1:
  "updateStatusAll
     (store3\<lparr>permitPackages := [pkg1, pkg2],
              statusLogs := statusLogs store3 @
                 [\<lparr>log_packageId = ''pkg-2'', log_userId = ''user-1'', log_status = DRAFT,
                   log_note = Some ''Package created''\<rparr>]\<rparr>) calls1
   = Some (store3\<lparr>permitPackages :=
                    [pkg1\<lparr>pkg_status := CLOSED, pkg_updatedById := Some ''user-1''\<rparr>,
                     pkg2\<lparr>pkg_status := DRAFT, pkg_updatedById := Some ''user-2''\<rparr>],
                  statusLogs := statusLogs store3 @
                    [\<lparr>log_packageId = ''pkg-2'', log_userId = ''user-1'', log_status = DRAFT,
                      log_note = Some ''Package created''\<rparr>,
                     \<lparr>log_packageId = ''pkg-2'', log_userId = ''user-2'', log_status = IN_REVIEW,
                      log_note = Some ''sent to reviewer''\<rparr>,
                     \<lparr>log_packageId = ''pkg-1'', log_userId = ''user-1'', log_status = CLOSED,
                      log_note = None\<rparr>,
                     \<lparr>log_packageId = ''pkg-2'', log_userId = ''user-2'', log_status = DRAFT,
                      log_note = None\<rparr>]\<rparr>)"
  by code_simp


theorem audit_trail_complete_witness:
  "length (logsOf (the (updateStatusAll
             (fst (create True True True 2024 ''pkg-2'' store3 dto1 ''user-1'')) calls1)) ''pkg-2'') = 3
   \<and> hd (logsOf (the (updateStatusAll
             (fst (create True True True 2024 ''pkg-2'' store3 dto1 ''user-1'')) calls1)) ''pkg-2'')
       = \<lparr>log_packageId = ''pkg-2'', log_userId = ''user-1'', log_status = DRAFT,
          log_note = Some ''Package created''\<rparr>
   \<and> map_option pkg_status (permitPackage_findUnique (the (updateStatusAll
             (fst (create True True True 2024 ''pkg-2'' store3 dto1 ''user-1'')) calls1)) ''pkg-2'')
       = Some DRAFT
   \<and> log_status (last (logsOf (the (updateStatusAll
             (fst (create True True True 2024 ''pkg-2'' store3 dto1 ''user-1'')) calls1)) ''pkg-2''))
       = DRAFT"
proof -
  have wf: "\<forall>l \<in> set (statusLogs store3). permitPackage_findUnique store3 (log_packageId l) \<noteq> None"
    by (simp add: store3_def store2_def store1_def pkg1_def permitPackage_findUnique_def)
  have id: "pkg_id pkg2 = ''pkg-2''" by (simp add: pkg2_def)
  have n: "length (filter (\<lambda>c. fst (snd (snd c)) = ''pkg-2'') calls1) = 2"
    by (simp add: calls1_def)
  from audit_trail_complete[OF wf create_pkg2 run_calls1]
  have "length (logsOf (the (updateStatusAll
             (fst (create True True True 2024 ''pkg-2'' store3 dto1 ''user-1'')) calls1)) ''pkg-2'') = 3
   \<and> hd (logsOf (the (updateStatusAll
             (fst (create True True True 2024 ''pkg-2'' store3 dto1 ''user-1'')) calls1)) ''pkg-2'')
       = \<lparr>log_packageId = ''pkg-2'', log_userId = ''user-1'', log_status = DRAFT,
          log_note = Some ''Package created''\<rparr>
   \<and> map_option pkg_status (permitPackage_findUnique (the (updateStatusAll
             (fst (create True True True 2024 ''pkg-2'' store3 dto1 ''user-1'')) calls1)) ''pkg-2'')
       = Some (log_status (last (logsOf (the (updateStatusAll
             (fst (create True True True 2024 ''pkg-2'' store3 dto1 ''user-1'')) calls1)) ''pkg-2'')))"
    by (simp add: id n create_pkg2 run_calls1)
  moreover have "log_status (last (logsOf (the (updateStatusAll
             (fst (create True True True 2024 ''pkg-2'' store3 dto1 ''user-1'')) calls1)) ''pkg-2''))
       = DRAFT"
    unfolding create_pkg2 fst_conv run_calls1 option.sel
    by (simp add: logsOf_def store3_def store2_def store1_def)
  ultimately show ?thesis by simp
qed

section \<open>Package creation and the checklist\<close>

text \<open>
  Claim C3 asks \<open>create\<close> to clone the applicable template rows of the county into
  the checklist of the new package. The code does not: \<open>create\<close> never writes the
  checklist table, and the checklist it returns for the new package is what the store
  already held under that package id, whatever templates the county has.
\<close>

theorem create_adds_no_checklist_items:
  "packageChecklistItems (fst (create okCount okCreate okLog year newId s dto userId))
     = packageChecklistItems s
   \<and> (\<forall>pkg items. snd (create okCount okCreate okLog year newId s dto userId) = Inr (pkg, items)
        \<longrightarrow> items = filter (\<lambda>c. item_packageId c = pkg_id pkg) (packageChecklistItems s))"
proof (intro conjI allI impI)
  show "packageChecklistItems (fst (create okCount okCreate okLog year newId s dto userId))
     = packageChecklistItems s"
    by (rule create_checklist_untouched)
next
  fix pkg items
  assume "snd (create okCount okCreate okLog year newId s dto userId) = Inr (pkg, items)"
  then have "create okCount okCreate okLog year newId s dto userId
               = (fst (create okCount okCreate okLog year newId s dto userId), Inr (pkg, items))"
    by (metis prod.collapse)
  from create_success[OF this]
  show "items = filter (\<lambda>c. item_packageId c = pkg_id pkg) (packageChecklistItems s)"
    by simp
qed

theorem create_adds_no_checklist_items_witness:
  "tpl_countyId tplGeneric = dto_countyId dto1 \<and> tpl_permitType tplGeneric = None
   \<and> tplGeneric \<in> set (countyChecklistTemplateItems store3)
   \<and> snd (create True True True 2024 ''pkg-2'' store3 dto1 ''user-1'') = Inr (pkg2, [])
   \<and> packageChecklistItems (fst (create True True True 2024 ''pkg-2'' store3 dto1 ''user-1''))
       = [item1]
   \<and> item_packageId item1 = ''pkg-1''"
proof -
  have a: "tpl_countyId tplGeneric = dto_countyId dto1" "tpl_permitType tplGeneric = None"
    "tplGeneric \<in> set (countyChecklistTemplateItems store3)" "item_packageId item1 = ''pkg-1''"
    by (simp_all add: tplGeneric_def dto1_def store3_def item1_def)
  have b: "snd (create True True True 2024 ''pkg-2'' store3 dto1 ''user-1'') = Inr (pkg2, [])"
    by (simp add: create_pkg2)
  have c: "packageChecklistItems store3 = [item1]"
    by (simp add: store3_def store2_def)
  from create_adds_no_checklist_items[of True True True 2024 "''pkg-2''" store3 dto1 "''user-1''"]
  have "packageChecklistItems (fst (create True True True 2024 ''pkg-2'' store3 dto1 ''user-1''))
       = [item1]"
    by (simp add: c)
  with a b show ?thesis by simp
qed

section \<open>Package numbers\<close>

lemma fromDigits_snoc:
  "fromDigits (str @ [c]) = fromDigits str * 10 + (of_char c - 48)"
  by (simp add: fromDigits_def)

lemma of_digit_char: "d < 10 \<Longrightarrow> of_char (digit_char d) - 48 = d"
  by (simp add: digit_char_def)

lemma fromDigits_toString: "fromDigits (toString n) = n"
proof (induction n rule: toString.induct)
  case (1 n)
  show ?case
  proof (cases "n < 10")
    case True
    then show ?thesis
      by (subst toString.simps) (simp add: fromDigits_def of_digit_char)
  next
    case False
    then have "fromDigits (toString (n div 10)) = n div 10" using 1 by simp
    with False show ?thesis
      by (subst toString.simps) (simp add: fromDigits_snoc of_digit_char)
  qed
qed

lemma fromDigits_zeros: "fromDigits (replicate k (CHR ''0'') @ str) = fromDigits str"
proof -
  have "foldl (\<lambda>acc c. acc * 10 + (of_char c - 48)) (0::nat) (replicate k (CHR ''0'')) = 0"
    by (induction k) simp_all
  then show ?thesis by (simp add: fromDigits_def)
qed

lemma fromDigits_padStart: "fromDigits (padStart w (CHR ''0'') (toString n)) = n"
  by (simp add: padStart_def fromDigits_zeros fromDigits_toString)

lemma padStart_toString_inj:
  "padStart w (CHR ''0'') (toString a) = padStart w (CHR ''0'') (toString b) \<Longrightarrow> a = b"
  by (metis fromDigits_padStart)

lemma startsWith_append: "startsWith (p @ rest) p"
  by (simp add: startsWith_def)


lemma create_number:
  assumes "create okCount okCreate okLog year newId s dto userId = (s1, Inr (pkg, items))"
  shows "pkg_packageNumber pkg
           = yearPrefix year @ padStart 4 (CHR ''0'') (toString (countOfYear year s + 1))"
    and "countOfYear year s1 = countOfYear year s + 1"
proof -
  from create_success[OF assms] have
    pkg: "pkg_packageNumber pkg
           = yearPrefix year @ padStart 4 (CHR ''0'') (toString (countOfYear year s + 1))"
    and s1: "permitPackages s1 = permitPackages s @ [pkg]"
    by (simp_all add: countOfYear_def)
  show "pkg_packageNumber pkg
           = yearPrefix year @ padStart 4 (CHR ''0'') (toString (countOfYear year s + 1))"
    by (rule pkg)
  have "startsWith (pkg_packageNumber pkg) (yearPrefix year)"
    unfolding pkg by (rule startsWith_append)
  then show "countOfYear year s1 = countOfYear year s + 1"
    by (simp add: countOfYear_def s1)
qed

lemma createAll_numbers:
  "createAll year s reqs = Some (s', numbers) \<Longrightarrow>
   numbers = map (\<lambda>k. yearPrefix year @ padStart 4 (CHR ''0'') (toString (countOfYear year s + 1 + k)))
               [0..<length reqs]"
proof (induction reqs arbitrary: s s' numbers)
  case Nil
  then show ?case by simp
next
  case (Cons req reqs)
  obtain okCount okCreate okLog newId dto userId where
    req: "req = (okCount, okCreate, okLog, newId, dto, userId)"
    by (cases req) auto
  from Cons.prems obtain s1 pkg items rest where
    cr: "create okCount okCreate okLog year newId s dto userId = (s1, Inr (pkg, items))" and
    run: "createAll year s1 reqs = Some (s', rest)" and
    nums: "numbers = pkg_packageNumber pkg # rest"
    by (auto simp: req split: prod.splits sum.splits option.splits)
  have rest: "rest = map (\<lambda>k. yearPrefix year @ padStart 4 (CHR ''0'')
                              (toString (countOfYear year s + 1 + Suc k))) [0..<length reqs]"
    using Cons.IH[OF run] by (simp add: create_number(2)[OF cr])
  have "map (\<lambda>k. yearPrefix year @ padStart 4 (CHR ''0'') (toString (countOfYear year s + 1 + k)))
          [0..<length (req # reqs)]
        = (yearPrefix year @ padStart 4 (CHR ''0'') (toString (countOfYear year s + 1)))
          # map (\<lambda>k. yearPrefix year @ padStart 4 (CHR ''0'')
                        (toString (countOfYear year s + 1 + Suc k))) [0..<length reqs]"
    by (simp add: map_upt_Suc del: upt_Suc)
  then show ?case
    by (simp add: nums rest create_number(1)[OF cr])
qed

lemma numbers_distinct:
  "distinct (map (\<lambda>k. yearPrefix year @ padStart 4 (CHR ''0'') (toString (c + 1 + k))) [0..<n])"
proof -
  have "inj (\<lambda>k. yearPrefix year @ padStart 4 (CHR ''0'') (toString (c + 1 + k)))"
    by (rule injI) (auto dest: padStart_toString_inj)
  then have "inj_on (\<lambda>k. yearPrefix year @ padStart 4 (CHR ''0'') (toString (c + 1 + k)))
               (set [0..<n])"
    by (rule inj_on_subset) simp
  then show ?thesis
    by (simp add: distinct_map)
qed

text \<open>
  Claim C10. A package created in year Y gets the number \<open>PKG-Y-NNNN\<close>, where NNNN is
  one plus the number of stored packages whose number starts with \<open>PKG-Y-\<close>, in
  decimal, padded with zeros on the left to four digits. Hence the numbers assigned by a
  run of successful creations of one year, made one after the other, are those of the
  consecutive counts from the first one on, and are pairwise distinct.
\<close>

theorem package_numbers_consecutive:
  "(\<forall>s1 pkg items.
      create okCount okCreate okLog year newId s dto userId = (s1, Inr (pkg, items)) \<longrightarrow>
        pkg_packageNumber pkg
          = ''PKG-'' @ toString year @ ''-'' @ padStart 4 (CHR ''0'') (toString (countOfYear year s + 1)))
   \<and> (\<forall>s' numbers.
        createAll year s reqs = Some (s', numbers) \<longrightarrow>
          numbers = map (\<lambda>k. ''PKG-'' @ toString year @ ''-''
                               @ padStart 4 (CHR ''0'') (toString (countOfYear year s + 1 + k)))
                      [0..<length reqs]
          \<and> distinct numbers)"
proof (intro conjI allI impI)
  fix s1 pkg items
  assume "create okCount okCreate okLog year newId s dto userId = (s1, Inr (pkg, items))"
  from create_number(1)[OF this]
  show "pkg_packageNumber pkg
          = ''PKG-'' @ toString year @ ''-'' @ padStart 4 (CHR ''0'') (toString (countOfYear year s + 1))"
    by (simp add: yearPrefix_def)
next
  fix s' numbers
  assume run: "createAll year s reqs = Some (s', numbers)"
  from createAll_numbers[OF run]
  show "numbers = map (\<lambda>k. ''PKG-'' @ toString year @ ''-''
                               @ padStart 4 (CHR ''0'') (toString (countOfYear year s + 1 + k)))
                      [0..<length reqs]"
    by (simp add: yearPrefix_def)
next
  fix s' numbers
  assume run: "createAll year s reqs = Some (s', numbers)"
  show "distinct numbers"
    unfolding createAll_numbers[OF run] by (rule numbers_distinct)
qed

lemma createAll_requests1:
  "map_option snd (createAll 2024 store3 requests1) = Some [''PKG-2024-0002'', ''PKG-2024-0003'']"
  by code_simp

theorem package_numbers_consecutive_witness:
  "countOfYear 2024 store3 = 1
   \<and> snd (create True True True 2024 ''pkg-2'' store3 dto1 ''user-1'') = Inr (pkg2, [])
   \<and> pkg_packageNumber pkg2 = ''PKG-2024-0002''
   \<and> map_option snd (createAll 2024 store3 requests1) = Some [''PKG-2024-0002'', ''PKG-2024-0003'']
   \<and> distinct (the (map_option snd (createAll 2024 store3 requests1)))"
proof -
  have c: "countOfYear 2024 store3 = 1" by code_simp
  have n: "pkg_packageNumber pkg2 = ''PKG-2024-0002''" by (simp add: pkg2_def)
  obtain s' numbers where run: "createAll 2024 store3 requests1 = Some (s', numbers)"
    using createAll_requests1 by (cases "createAll 2024 store3 requests1") auto
  note t = package_numbers_consecutive[of True True True 2024 "''pkg-2''" store3 dto1 "''user-1''" requests1]
  from t create_pkg2 have
    "pkg_packageNumber pkg2
       = ''PKG-'' @ toString 2024 @ ''-'' @ padStart 4 (CHR ''0'') (toString (countOfYear 2024 store3 + 1))"
    by blast
  from t run have "distinct numbers" by blast
  then have d: "distinct (the (map_option snd (createAll 2024 store3 requests1)))"
    by (simp add: run)
  have b: "snd (create True True True 2024 ''pkg-2'' store3 dto1 ''user-1'') = Inr (pkg2, [])"
    by (simp add: create_pkg2)
  from c b n createAll_requests1 d show ?thesis
    by (intro conjI)
qed

section \<open>Progress statistics: rounding to a double\<close>

lemma nearestEven_error:
  assumes "0 < b"
  shows "\<bar>real (nearestEven a b) - real a / real b\<bar> \<le> 1 / 2"
proof -
  define n where "n = a div b"
  define r where "r = a mod b"
  have a: "a = n * b + r" by (simp add: n_def r_def)
  have rb: "r < b" using assms by (simp add: r_def)
  have q: "real a / real b = real n + real r / real b"
    using assms by (simp add: a field_simps)
  define x where "x = real r / real b"
  have x0: "0 \<le> x" and x1: "x < 1" using rb assms by (simp_all add: x_def)
  have half: "2 * r < b \<Longrightarrow> x < 1 / 2"
    using assms by (simp add: x_def field_simps)
  have half': "b < 2 * r \<Longrightarrow> 1 / 2 < x"
    using assms by (simp add: x_def field_simps)
  have half'': "\<not> 2 * r < b \<Longrightarrow> \<not> b < 2 * r \<Longrightarrow> x = 1 / 2"
  proof -
    assume "\<not> 2 * r < b" "\<not> b < 2 * r"
    then have "b = 2 * r" by simp
    then show ?thesis using assms by (simp add: x_def)
  qed
  have m: "(nearestEven a b = n \<and> x \<le> 1 / 2) \<or> (nearestEven a b = n + 1 \<and> 1 / 2 \<le> x)"
    unfolding nearestEven_def Let_def n_def[symmetric] r_def[symmetric]
    using half half' half'' by (cases "2 * r < b"; cases "b < 2 * r"; cases "even n") auto
  have "\<bar>real (nearestEven a b) - (real n + x)\<bar> \<le> 1 / 2"
    using m x0 x1 by auto
  then show ?thesis by (simp add: q x_def)
qed

lemma bitLength_le: "n < 2 ^ j \<Longrightarrow> bitLength n \<le> j"
proof (induction j arbitrary: n)
  case 0
  then show ?case by (simp add: bitLength.simps)
next
  case (Suc j)
  show ?case
  proof (cases "n = 0")
    case True
    then show ?thesis by (simp add: bitLength.simps)
  next
    case False
    have "n div 2 < 2 ^ j" using Suc.prems by simp
    then have "bitLength (n div 2) \<le> j" by (rule Suc.IH)
    with False show ?thesis by (subst bitLength.simps) simp
  qed
qed

lemma bitLength_gt: "2 ^ j \<le> n \<Longrightarrow> j < bitLength n"
proof (induction j arbitrary: n)
  case 0
  then show ?case by (subst bitLength.simps) simp
next
  case (Suc j)
  have "2 ^ j \<le> n div 2" using Suc.prems by simp
  then have "j < bitLength (n div 2)" by (rule Suc.IH)
  moreover have "n \<noteq> 0"
  proof
    assume "n = 0"
    with Suc.prems show False by simp
  qed
  ultimately show ?case by (subst bitLength.simps) simp
qed

lemma bitLength_pow2: "bitLength (2 ^ k) = Suc k"
proof -
  have "bitLength (2 ^ k) \<le> Suc k" by (rule bitLength_le) simp
  moreover have "k < bitLength (2 ^ k)" by (rule bitLength_gt) simp
  ultimately show ?thesis by simp
qed

lemma less_pow2_bitLength: "n < 2 ^ bitLength n"
proof (rule ccontr)
  assume "\<not> n < 2 ^ bitLength n"
  then have "2 ^ bitLength n \<le> n" by simp
  from bitLength_gt[OF this] show False by simp
qed

lemma bitLength_mono: "a \<le> b \<Longrightarrow> bitLength a \<le> bitLength b"
  by (rule bitLength_le) (use less_pow2_bitLength[of b] in simp)

lemma scaleOf_ge: "52 + bitLength b - bitLength a \<le> scaleOf a b"
  by (simp add: scaleOf_def Let_def)

lemma roundQuotient_pos:
  "0 < a \<Longrightarrow> roundQuotient a b = (nearestEven (a * 2 ^ scaleOf a b) b, scaleOf a b)"
  by (simp add: roundQuotient_def)

lemma roundQuotient_error:
  assumes "0 < a" and "0 < b"
  shows "\<bar>doubleValue (roundQuotient a b) - real a / real b\<bar> \<le> 1 / 2 ^ Suc (scaleOf a b)"
proof -
  define k where "k = scaleOf a b"
  have "\<bar>real (nearestEven (a * 2 ^ k) b) - real (a * 2 ^ k) / real b\<bar> \<le> 1 / 2"
    using assms(2) by (rule nearestEven_error)
  then have "\<bar>real (nearestEven (a * 2 ^ k) b) - real (a * 2 ^ k) / real b\<bar> / 2 ^ k \<le> (1 / 2) / 2 ^ k"
    by (rule divide_right_mono) simp
  moreover have "\<bar>real (nearestEven (a * 2 ^ k) b) - real (a * 2 ^ k) / real b\<bar> / 2 ^ k
      = \<bar>real (nearestEven (a * 2 ^ k) b) / 2 ^ k - real a / real b\<bar>"
  proof -
    have "\<bar>real (nearestEven (a * 2 ^ k) b) - real (a * 2 ^ k) / real b\<bar> / 2 ^ k
        = \<bar>(real (nearestEven (a * 2 ^ k) b) - real (a * 2 ^ k) / real b) / 2 ^ k\<bar>"
      by simp
    also have "(real (nearestEven (a * 2 ^ k) b) - real (a * 2 ^ k) / real b) / 2 ^ k
        = real (nearestEven (a * 2 ^ k) b) / 2 ^ k - real a / real b"
      by (simp add: diff_divide_distrib)
    finally show ?thesis .
  qed
  ultimately show ?thesis
    using assms(1) by (simp add: roundQuotient_def doubleValue_def k_def)
qed


lemma Math_round_floor:
  "int (Math_round x) = \<lfloor>doubleValue x + 1 / 2\<rfloor>"
proof -
  have "doubleValue x + 1 / 2 = real (2 * fst x + 2 ^ snd x) / real (2 ^ (snd x + 1))"
    by (simp add: doubleValue_def field_simps)
  then have "\<lfloor>doubleValue x + 1 / 2\<rfloor> = \<lfloor>real (2 * fst x + 2 ^ snd x) / real (2 ^ (snd x + 1))\<rfloor>"
    by simp
  also have "\<dots> = int ((2 * fst x + 2 ^ snd x) div 2 ^ (snd x + 1))"
    by (rule floor_divide_of_nat_eq)
  finally show ?thesis by (simp add: Math_round_def)
qed

text \<open>
  Two roundings of a ratio of at most one: the double product is within \<open>2 ^ -45\<close> of
  the exact percentage.
\<close>

lemma percent_error:
  assumes c: "0 < c" and ct: "c \<le> t"
  shows "\<bar>doubleValue (js_times100 (js_divide c t)) - 100 * real c / real t\<bar> < 1 / 2 ^ 45"
proof -
  have t: "0 < t" using c ct by simp
  define k where "k = scaleOf c t"
  define m where "m = nearestEven (c * 2 ^ k) t"
  have q: "js_divide c t = (m, k)"
    by (simp add: js_divide_def roundQuotient_pos[OF c] m_def k_def)
  have k52: "52 \<le> k"
    using scaleOf_ge[of t c] bitLength_mono[OF ct] by (simp add: k_def)
  have e1: "\<bar>real m / 2 ^ k - real c / real t\<bar> \<le> 1 / 2 ^ Suc k"
    using roundQuotient_error[OF c t] by (simp add: roundQuotient_pos[OF c] doubleValue_def m_def k_def)
  have p53: "(1::real) / 2 ^ Suc k \<le> 1 / 2 ^ 53"
    using k52 by (intro divide_left_mono power_increasing) simp_all
  have e1': "\<bar>real m / 2 ^ k - real c / real t\<bar> \<le> 1 / 2 ^ 53"
    using e1 p53 by linarith
  have ratio: "real c / real t \<le> 1" using ct t by simp
  have ratio0: "0 \<le> real c / real t" by simp
  show ?thesis
  proof (cases "m = 0")
    case True
    have "real c / real t \<le> 1 / 2 ^ 53" using e1' by (simp add: True)
    then have "100 * (real c / real t) \<le> 100 * (1 / 2 ^ 53)"
      by (rule mult_left_mono) simp
    moreover have "(100::real) * (1 / 2 ^ 53) < 1 / 2 ^ 45" by simp
    ultimately have "100 * (real c / real t) < 1 / 2 ^ 45" by linarith
    moreover have "js_times100 (js_divide c t) = (0, 0)"
      using True by (simp add: q js_times100_def roundQuotient_def)
    ultimately show ?thesis
      using ratio0 by (simp add: doubleValue_def)
  next
    case False
    then have m0: "0 < m * 100" by simp
    define k' where "k' = scaleOf (m * 100) (2 ^ k)"
    have e2: "\<bar>doubleValue (js_times100 (js_divide c t)) - real (m * 100) / real ((2::nat) ^ k)\<bar>
                \<le> 1 / 2 ^ Suc k'"
      using roundQuotient_error[OF m0, of "2 ^ k"] by (simp add: q js_times100_def k'_def)
    have "real m / 2 ^ k \<le> 1 + 1 / 2 ^ 53" using e1' ratio by linarith
    also have "\<dots> < 2" by simp
    finally have "real m / 2 ^ k < 2" .
    then have "real m < 2 * 2 ^ k" by (simp add: field_simps)
    then have "real m < real (2 * 2 ^ k)" by simp
    then have "m < 2 * 2 ^ k" by (simp only: of_nat_less_iff)
    then have "m * 100 < 2 ^ (k + 8)" by (simp add: power_add)
    then have "bitLength (m * 100) \<le> k + 8" by (rule bitLength_le)
    then have k'45: "45 \<le> k'"
      using scaleOf_ge[of "2 ^ k" "m * 100"] by (simp add: k'_def bitLength_pow2)
    have p46: "(1::real) / 2 ^ Suc k' \<le> 1 / 2 ^ 46"
      using k'45 by (intro divide_left_mono power_increasing) simp_all
    have e2': "\<bar>doubleValue (js_times100 (js_divide c t)) - 100 * (real m / 2 ^ k)\<bar> \<le> 1 / 2 ^ 46"
    proof -
      have eq: "real (m * 100) / real ((2::nat) ^ k) = 100 * (real m / 2 ^ k)" by simp
      show ?thesis using e2 p46 unfolding eq by linarith
    qed
    have e3: "\<bar>100 * (real m / 2 ^ k) - 100 * (real c / real t)\<bar> \<le> 100 * (1 / 2 ^ 53)"
      using e1' by linarith
    have small: "(1::real) / 2 ^ 46 + 100 * (1 / 2 ^ 53) < 1 / 2 ^ 45" by simp
    have "\<bar>doubleValue (js_times100 (js_divide c t)) - 100 * (real c / real t)\<bar> < 1 / 2 ^ 45"
      using e2' e3 small by linarith
    then show ?thesis by simp
  qed
qed


lemma percent_error0:
  assumes "0 < t" and "c \<le> t"
  shows "\<bar>doubleValue (js_times100 (js_divide c t)) - 100 * real c / real t\<bar> < 1 / 2 ^ 45"
proof (cases "c = 0")
  case True
  then show ?thesis
    by (simp add: js_divide_def js_times100_def roundQuotient_def doubleValue_def)
next
  case False
  then have "0 < c" by simp
  then show ?thesis using assms(2) by (rule percent_error)
qed

text \<open>
  Away from the halfway cases the exact value \<open>100 * c / t + 1/2\<close> is at least
  \<open>1 / (2 * t)\<close> from the next integer on either side, more than the error of the
  double product, so \<open>Math.round\<close> lands on the exactly rounded percentage. At a
  halfway case it lands on it or one below.
\<close>

lemma percentage_vs_exact:
  assumes t: "0 < t" and ct: "c \<le> t" and small: "t < 2 ^ 32"
  shows "(\<not> halfway c t \<longrightarrow>
            int (Math_round (js_times100 (js_divide c t))) = round (100 * real c / real t))
       \<and> (int (Math_round (js_times100 (js_divide c t))) = round (100 * real c / real t)
          \<or> int (Math_round (js_times100 (js_divide c t))) = round (100 * real c / real t) - 1)"
proof -
  define p where "p = doubleValue (js_times100 (js_divide c t))"
  define v where "v = 100 * real c / real t"
  define A where "A = 200 * c + t"
  define B where "B = 2 * t"
  define N where "N = A div B"
  define R where "R = A mod B"
  have B0: "0 < B" using t by (simp add: B_def)
  have err: "\<bar>p - v\<bar> < 1 / 2 ^ 45"
    unfolding p_def v_def using t ct by (rule percent_error0)
  have u: "v + 1 / 2 = real A / real B"
    using t by (simp add: v_def A_def B_def field_simps)
  have A: "A = N * B + R" by (simp add: N_def R_def)
  have RB: "R < B" using B0 by (simp add: R_def)
  have uN: "v + 1 / 2 = real N + real R / real B"
    using B0 by (simp add: u A field_simps)
  have roundv: "round v = int N"
  proof -
    have "round v = \<lfloor>real A / real B\<rfloor>" by (simp add: round_def u)
    also have "\<dots> = int (A div B)" by (rule floor_divide_of_nat_eq)
    finally show ?thesis by (simp add: N_def)
  qed
  have mr: "int (Math_round (js_times100 (js_divide c t))) = \<lfloor>p + 1 / 2\<rfloor>"
    by (simp add: Math_round_floor p_def)
  have Bsmall: "real B \<le> 2 ^ 33"
  proof -
    have "B \<le> 2 ^ 33" using small by (simp add: B_def)
    then have "real B \<le> real (2 ^ 33)" by (simp only: of_nat_le_iff)
    then show ?thesis by simp
  qed
  define d where "d = (1::real) / 2 ^ 45"
  define g where "g = 1 / real B"
  define f where "f = real R / real B"
  have err': "\<bar>p - v\<bar> < d" using err by (simp only: d_def)
  have dg: "d < g"
  proof -
    have "(1::real) / 2 ^ 45 < 1 / 2 ^ 33" by simp
    also have "\<dots> \<le> 1 / real B"
      using Bsmall B0 by (intro divide_left_mono) simp_all
    finally show ?thesis by (simp only: d_def g_def)
  qed
  have d0: "0 < d" by (simp add: d_def)
  have uN': "v + 1 / 2 = real N + f" using uN by (simp only: f_def)
  have nontie: "int (Math_round (js_times100 (js_divide c t))) = round v" if "\<not> halfway c t"
  proof -
    from that t have "R \<noteq> 0" by (simp add: halfway_def R_def A_def B_def)
    then have R1: "1 \<le> R" by simp
    have lo: "g \<le> f"
      unfolding g_def f_def using R1 B0 by (intro divide_right_mono) simp_all
    have "R + 1 \<le> B" using RB by simp
    then have "real (R + 1) \<le> real B" by (simp only: of_nat_le_iff)
    then have "real (R + 1) / real B \<le> 1" using B0 by simp
    then have hi: "f \<le> 1 - g"
      by (simp add: f_def g_def add_divide_distrib)
    have "real_of_int (int N) \<le> p + 1 / 2"
      using err' uN' lo dg unfolding of_int_of_nat_eq by linarith
    moreover have "p + 1 / 2 < real_of_int (int N) + 1"
      using err' uN' hi dg unfolding of_int_of_nat_eq by linarith
    ultimately have "\<lfloor>p + 1 / 2\<rfloor> = int N" by (rule floor_unique)
    then show ?thesis by (simp add: mr roundv)
  qed
  have near: "int (Math_round (js_times100 (js_divide c t))) = round v
            \<or> int (Math_round (js_times100 (js_divide c t))) = round v - 1"
  proof (cases "halfway c t")
    case False
    then show ?thesis using nontie by simp
  next
    case True
    then have "R = 0" by (simp add: halfway_def R_def A_def B_def)
    then have f0: "f = 0" by (simp add: f_def)
    have d1: "d < 1" by (simp add: d_def)
    show ?thesis
    proof (cases "real N \<le> p + 1 / 2")
      case True
      then have "real_of_int (int N) \<le> p + 1 / 2" by (simp only: of_int_of_nat_eq)
      moreover have "p + 1 / 2 < real_of_int (int N) + 1"
        using err' uN' f0 d1 unfolding of_int_of_nat_eq by linarith
      ultimately have "\<lfloor>p + 1 / 2\<rfloor> = int N" by (rule floor_unique)
      then show ?thesis by (simp add: mr roundv)
    next
      case False
      have eq: "real_of_int (int N - 1) = real N - 1" by simp
      have "p + 1 / 2 < real_of_int (int N - 1) + 1"
        using False unfolding eq by linarith
      moreover have "real_of_int (int N - 1) \<le> p + 1 / 2"
        using err' uN' f0 d1 unfolding eq by linarith
      ultimately have "\<lfloor>p + 1 / 2\<rfloor> = int N - 1" by (intro floor_unique)
      then show ?thesis by (simp add: mr roundv)
    qed
  qed
  show ?thesis using nontie near by (simp add: v_def)
qed


section \<open>Progress statistics\<close>

lemma filter_both_le:
  "length (filter (\<lambda>x. P x \<and> Q x) xs) \<le> length (filter P xs)"
  by (induction xs) auto

lemmas double_eval = Math_round_def js_times100_def js_divide_def roundQuotient_def
  scaleOf_def nearestEven_def bitLength.simps Let_def

text \<open>
  Claim C9, as the code has it. For a checklist (a JavaScript array, so of fewer than
  \<open>2 ^ 32\<close> items), \<open>getProgressStats\<close> returns the number of items, of completed
  items, of required items and of items both required and completed. Each percentage is 0
  when its whole is 0, and is \<open>Math.round\<close> of the double-precision product
  \<open>(part / whole) * 100\<close> otherwise: it equals \<open>round(100 * part / whole)\<close> whenever
  \<open>100 * part / whole\<close> is not exactly halfway between two integers, and in the halfway
  cases it is that value or one less. For total 10, completed 4, required 6 and
  required-and-completed 3 the percentages are 40 and 50.
\<close>

theorem getProgressStats_result:
  assumes "length items < 2 ^ 32"
  shows "stats_total (getProgressStats items) = length items
       \<and> stats_completed (getProgressStats items) = length (filter item_completed items)
       \<and> stats_required (getProgressStats items) = length (filter item_required items)
       \<and> stats_requiredCompleted (getProgressStats items)
           = length (filter (\<lambda>item. item_required item \<and> item_completed item) items)
       \<and> (stats_total (getProgressStats items) = 0 \<longrightarrow> stats_percentage (getProgressStats items) = 0)
       \<and> (stats_required (getProgressStats items) = 0 \<longrightarrow>
            stats_requiredPercentage (getProgressStats items) = 0)
       \<and> (\<not> halfway (stats_completed (getProgressStats items)) (stats_total (getProgressStats items)) \<longrightarrow>
            int (stats_percentage (getProgressStats items))
              = specPercentage (stats_completed (getProgressStats items))
                  (stats_total (getProgressStats items)))
       \<and> (\<not> halfway (stats_requiredCompleted (getProgressStats items))
                (stats_required (getProgressStats items)) \<longrightarrow>
            int (stats_requiredPercentage (getProgressStats items))
              = specPercentage (stats_requiredCompleted (getProgressStats items))
                  (stats_required (getProgressStats items)))
       \<and> int (stats_percentage (getProgressStats items))
           \<in> {specPercentage (stats_completed (getProgressStats items))
                 (stats_total (getProgressStats items)) - 1,
               specPercentage (stats_completed (getProgressStats items))
                 (stats_total (getProgressStats items))}
       \<and> int (stats_requiredPercentage (getProgressStats items))
           \<in> {specPercentage (stats_requiredCompleted (getProgressStats items))
                 (stats_required (getProgressStats items)) - 1,
               specPercentage (stats_requiredCompleted (getProgressStats items))
                 (stats_required (getProgressStats items))}"
proof -
  define total where "total = length items"
  define completed where "completed = length (filter item_completed items)"
  define required where "required = length (filter item_required items)"
  define requiredCompleted where
    "requiredCompleted = length (filter (\<lambda>item. item_required item \<and> item_completed item) items)"
  have fields:
    "stats_total (getProgressStats items) = total"
    "stats_completed (getProgressStats items) = completed"
    "stats_required (getProgressStats items) = required"
    "stats_requiredCompleted (getProgressStats items) = requiredCompleted"
    "stats_percentage (getProgressStats items)
       = (if total > 0 then Math_round (js_times100 (js_divide completed total)) else 0)"
    "stats_requiredPercentage (getProgressStats items)
       = (if required > 0 then Math_round (js_times100 (js_divide requiredCompleted required)) else 0)"
    by (simp_all add: getProgressStats_def Let_def total_def completed_def required_def
          requiredCompleted_def)
  have ct: "completed \<le> total" by (simp add: completed_def total_def)
  have rt: "required \<le> total" by (simp add: required_def total_def)
  have rc: "requiredCompleted \<le> required"
    unfolding requiredCompleted_def required_def by (rule filter_both_le)
  have tsmall: "total < 2 ^ 32" using assms by (simp add: total_def)
  have rsmall: "required < 2 ^ 32" using rt tsmall by simp
  have pct: "(\<not> halfway completed total \<longrightarrow>
               int (if total > 0 then Math_round (js_times100 (js_divide completed total)) else 0)
                 = specPercentage completed total)
           \<and> int (if total > 0 then Math_round (js_times100 (js_divide completed total)) else 0)
               \<in> {specPercentage completed total - 1, specPercentage completed total}"
  proof (cases "total > 0")
    case True
    from percentage_vs_exact[OF True ct tsmall] True show ?thesis
      by (auto simp: specPercentage_def)
  next
    case False
    then show ?thesis by (simp add: specPercentage_def)
  qed
  have rpct: "(\<not> halfway requiredCompleted required \<longrightarrow>
               int (if required > 0 then Math_round (js_times100 (js_divide requiredCompleted required)) else 0)
                 = specPercentage requiredCompleted required)
           \<and> int (if required > 0 then Math_round (js_times100 (js_divide requiredCompleted required)) else 0)
               \<in> {specPercentage requiredCompleted required - 1, specPercentage requiredCompleted required}"
  proof (cases "required > 0")
    case True
    from percentage_vs_exact[OF True rc rsmall] True show ?thesis
      by (auto simp: specPercentage_def)
  next
    case False
    then show ?thesis by (simp add: specPercentage_def)
  qed
  show ?thesis
    unfolding fields
    using pct rpct
    by (simp add: total_def completed_def required_def requiredCompleted_def)
qed


lemma checklist10_counts:
  "length checklist10 = 10"
  "length (filter item_completed checklist10) = 4"
  "length (filter item_required checklist10) = 6"
  "length (filter (\<lambda>item. item_required item \<and> item_completed item) checklist10) = 3"
  by (simp_all add: checklist10_def itemRC_def itemC_def itemR_def itemO_def)

lemma checklist40_counts:
  "length checklist40 = 40"
  "length (filter item_completed checklist40) = 23"
  by (simp_all add: checklist40_def itemC_def itemO_def)

theorem getProgressStats_result_witness:
  "length checklist10 < 2 ^ 32
   \<and> stats_total (getProgressStats checklist10) = 10
   \<and> stats_completed (getProgressStats checklist10) = 4
   \<and> stats_required (getProgressStats checklist10) = 6
   \<and> stats_requiredCompleted (getProgressStats checklist10) = 3
   \<and> stats_percentage (getProgressStats checklist10) = 40
   \<and> stats_requiredPercentage (getProgressStats checklist10) = 50"
proof -
  have len: "length checklist10 < 2 ^ 32" by (simp add: checklist10_counts)
  note t = getProgressStats_result[OF len, unfolded checklist10_counts]
  have tot: "stats_total (getProgressStats checklist10) = 10"
    and com: "stats_completed (getProgressStats checklist10) = 4"
    and req: "stats_required (getProgressStats checklist10) = 6"
    and rco: "stats_requiredCompleted (getProgressStats checklist10) = 3"
    using t by simp_all
  have h1: "\<not> halfway 4 10" and h2: "\<not> halfway 3 6" by (simp_all add: halfway_def)
  have s1: "specPercentage 4 10 = 40" and s2: "specPercentage 3 6 = 50"
    by (simp_all add: specPercentage_def round_def)
  have "int (stats_percentage (getProgressStats checklist10)) = 40"
    using t h1 s1 by (simp add: tot com)
  moreover have "int (stats_requiredPercentage (getProgressStats checklist10)) = 50"
    using t h2 s2 by (simp add: req rco)
  ultimately show ?thesis using len tot com req rco by simp
qed

text \<open>
  The claim as stated fails at a halfway case: with 23 of 40 items completed the double
  \<open>23 / 40\<close> is just below 0.575, the product just below 57.5, and the percentage
  shown is 57, while \<open>round(100 * 23 / 40) = round(57.5) = 58\<close>.
\<close>

theorem getProgressStats_halfway_counterexample:
  "stats_total (getProgressStats checklist40) = 40
   \<and> stats_completed (getProgressStats checklist40) = 23
   \<and> stats_percentage (getProgressStats checklist40) = 57
   \<and> specPercentage 23 40 = 58"
proof -
  have "Math_round (js_times100 (js_divide 23 40)) = 57"
    by (simp add: double_eval)
  moreover have "specPercentage 23 40 = 58"
    by (simp add: specPercentage_def round_def)
  ultimately show ?thesis
    by (simp add: getProgressStats_def Let_def checklist40_counts)
qed

end
